theory Spec2Isabelle
  imports Complex_Main "HOL-Library.Word" "HOL-Library.Char_ord" "HOL-Library.List_Lexorder" "HOL-Library.AList"
begin

unbundle bit_operations_syntax

section \<open>JavaScript values used by the statistics server\<close>

text \<open>
  Bytes of a \<^verbatim>\<open>Uint8Array\<close> are 8-bit words. A \<^verbatim>\<open>BigInt\<close> is an unbounded
  \<^typ>\<open>int\<close>. A slot of the estimator's register array is a JavaScript number, the
  value \<^verbatim>\<open>NaN\<close>, or \<^verbatim>\<open>undefined\<close> (what reading a missing array slot gives).
  Strings are lists of 8-bit characters, read as the UTF-8 code units of the text.
\<close>

type_synonym byte = "8 word"

datatype jsnum = Num int | NaN | Undefined

text \<open>\<^verbatim>\<open>Math.max(a, b)\<close> with a numeric second argument: \<^verbatim>\<open>undefined\<close> converts to
  \<^verbatim>\<open>NaN\<close>, and \<^verbatim>\<open>NaN\<close> is absorbing.\<close>

fun Math_max :: "jsnum \<Rightarrow> int \<Rightarrow> jsnum" where
  "Math_max (Num a) r = Num (max a r)"
| "Math_max NaN r = NaN"
| "Math_max Undefined r = NaN"

text \<open>Reading \<^verbatim>\<open>arr[i]\<close> past the end gives \<^verbatim>\<open>undefined\<close>; writing past the end
  extends the array, the slots in between being holes.\<close>

definition arr_get :: "jsnum list \<Rightarrow> nat \<Rightarrow> jsnum" where
  "arr_get xs i = (if i < length xs then xs ! i else Undefined)"

definition arr_set :: "jsnum list \<Rightarrow> nat \<Rightarrow> jsnum \<Rightarrow> jsnum list" where
  "arr_set xs i v =
     (if i < length xs then xs[i := v]
      else xs @ replicate (i - length xs) Undefined @ [v])"

text \<open>\<^verbatim>\<open>BigInt.prototype.toString(2)\<close>: binary digits, most significant first,
  \<^verbatim>\<open>"0"\<close> for zero and a leading minus sign for a negative value.\<close>

fun bin_digits :: "nat \<Rightarrow> string" where
  "bin_digits n =
     (if n = 0 then []
      else bin_digits (n div 2) @ [if odd n then CHR ''1'' else CHR ''0''])"

declare bin_digits.simps [simp del]

definition toString2 :: "int \<Rightarrow> string" where
  "toString2 x =
     (if x = 0 then ''0''
      else if x < 0 then CHR ''-'' # bin_digits (nat (- x))
      else bin_digits (nat x))"

text \<open>\<^verbatim>\<open>s.padStart(k, c)\<close>: pads on the left up to length \<open>k\<close>; a string that is
  already that long, or a target that is not positive, leaves \<open>s\<close> as it is.\<close>

definition padStart :: "int \<Rightarrow> char \<Rightarrow> string \<Rightarrow> string" where
  "padStart k c s = replicate (nat k - length s) c @ s"

text \<open>\<^verbatim>\<open>s.indexOf(c)\<close>: the index of the first occurrence, or \<open>-1\<close>.\<close>

fun indexOf :: "string \<Rightarrow> char \<Rightarrow> int" where
  "indexOf [] c = - 1"
| "indexOf (x # xs) c =
     (if x = c then 0
      else (let r = indexOf xs c in if r = - 1 then - 1 else r + 1))"

text \<open>\<^verbatim>\<open>utf8ToBytes\<close> and \<^verbatim>\<open>bytesToHex\<close> of \<^verbatim>\<open>@noble/hashes/utils\<close>.\<close>

definition utf8ToBytes :: "string \<Rightarrow> byte list" where
  "utf8ToBytes s = map of_char s"

definition hex_digit :: "nat \<Rightarrow> char" where
  "hex_digit d = ''0123456789abcdef'' ! (d mod 16)"

definition bytesToHex :: "byte list \<Rightarrow> string" where
  "bytesToHex bs = concat (map (\<lambda>b. [hex_digit (unat b div 16), hex_digit (unat b mod 16)]) bs)"

section \<open>The cardinality estimator and its custom update\<close>

text \<open>
  The estimator object of the \<^verbatim>\<open>bloom-filters\<close> package, reduced to the two private
  fields that \<^verbatim>\<open>customHllUpdate\<close> reads and writes: \<^verbatim>\<open>_nbBytesPerHash\<close> and
  \<^verbatim>\<open>_registers\<close>.
\<close>

record HyperLogLog =
  nbBytesPerHash :: nat
  registers :: "jsnum list"

datatype js_error = TypeError | LibError string

datatype element = EStr string | EBytes "byte list"

text \<open>\<^verbatim>\<open>typeof element === 'string' ? utf8ToBytes(element) : element\<close>\<close>

fun element_bytes :: "element \<Rightarrow> byte list" where
  "element_bytes (EStr s) = utf8ToBytes s"
| "element_bytes (EBytes bs) = bs"

text \<open>
  \<^verbatim>\<open>let v = 0n; for (let i = 0; i < 8; i++) v = (v << 8n) | BigInt(digest[i])\<close>.
  A digest shorter than eight bytes makes \<^verbatim>\<open>BigInt(undefined)\<close> throw a TypeError.
\<close>

fun hashTo64_loop :: "nat \<Rightarrow> int \<Rightarrow> byte list \<Rightarrow> js_error + int" where
  "hashTo64_loop 0 v bs = Inr v"
| "hashTo64_loop (Suc n) v [] = Inl TypeError"
| "hashTo64_loop (Suc n) v (b # bs) = hashTo64_loop n (push_bit 8 v OR uint b) bs"

definition hashTo64BigInt :: "byte list \<Rightarrow> js_error + int" where
  "hashTo64BigInt bytes = hashTo64_loop 8 0 bytes"

text \<open>The local constants of \<^verbatim>\<open>customHllUpdate\<close>, each as a function of the
  estimator and the 64-bit value \<open>v\<close>. The conversion \<^verbatim>\<open>Number(v & mask)\<close> is exact
  for an index below \<open>2 ^ 53\<close>, that is for at most 53 index bits.\<close>

definition registerIndex :: "HyperLogLog \<Rightarrow> int \<Rightarrow> nat" where
  "registerIndex hll v =
     (let nbBits = nbBytesPerHash hll;
          mask = push_bit nbBits 1 - 1
      in nat (v AND mask))"

definition rho :: "HyperLogLog \<Rightarrow> int \<Rightarrow> int" where
  "rho hll v =
     (let nbBits = nbBytesPerHash hll;
          second = drop_bit nbBits v;
          k = 64 - int nbBits;
          secondBin = padStart k CHR ''0'' (toString2 second);
          idx = indexOf secondBin CHR ''1''
      in if idx = - 1 then k else idx + 1)"

definition customHllUpdate_digest :: "HyperLogLog \<Rightarrow> byte list \<Rightarrow> js_error + HyperLogLog" where
  "customHllUpdate_digest hll digest =
     (case hashTo64BigInt digest of
        Inl e \<Rightarrow> Inl e
      | Inr v \<Rightarrow>
          Inr (hll\<lparr>registers :=
                 arr_set (registers hll) (registerIndex hll v)
                   (Math_max (arr_get (registers hll) (registerIndex hll v)) (rho hll v))\<rparr>))"

text \<open>The hash \<^verbatim>\<open>blake3\<close> of \<^verbatim>\<open>@noble/hashes\<close> is a parameter of the model.\<close>

definition customHllUpdate ::
  "(byte list \<Rightarrow> byte list) \<Rightarrow> HyperLogLog \<Rightarrow> element \<Rightarrow> js_error + HyperLogLog" where
  "customHllUpdate blake3 hll element =
     customHllUpdate_digest hll (blake3 (element_bytes element))"

text \<open>The same update for a list of elements, stopping at the first error.\<close>

fun customHllUpdate_all ::
  "(byte list \<Rightarrow> byte list) \<Rightarrow> HyperLogLog \<Rightarrow> element list \<Rightarrow> js_error + HyperLogLog" where
  "customHllUpdate_all blake3 hll [] = Inr hll"
| "customHllUpdate_all blake3 hll (e # es) =
     (case customHllUpdate blake3 hll e of
        Inl err \<Rightarrow> Inl err
      | Inr hll' \<Rightarrow> customHllUpdate_all blake3 hll' es)"

definition HLL_REGISTERS :: nat where
  "HLL_REGISTERS = 1024"

fun log2 :: "nat \<Rightarrow> nat" where
  "log2 n = (if n < 2 then 0 else Suc (log2 (n div 2)))"

declare log2.simps [simp del]

text \<open>Modelled from the spec: the constructor \<^verbatim>\<open>new HyperLogLog(m)\<close> belongs to the
  \<^verbatim>\<open>bloom-filters\<close> package and is not part of the sources. The specification gives
  an estimator a register array of length \<open>m\<close>, a power of two, created with all
  registers zero, and a register index of \<open>log2(m)\<close> bits.\<close>

definition new_HyperLogLog :: "nat \<Rightarrow> HyperLogLog" where
  "new_HyperLogLog m = \<lparr>nbBytesPerHash = log2 m, registers = replicate m (Num 0)\<rparr>"

subsection \<open>Reference notions for the digest, the index and the rank\<close>

text \<open>The value of a byte string read as a big-endian number.\<close>

fun be_value :: "byte list \<Rightarrow> int" where
  "be_value [] = 0"
| "be_value (b # bs) = uint b * 256 ^ length bs + be_value bs"

text \<open>\<open>leading_zeros k r\<close> counts the zero bits of \<open>r\<close> from bit \<open>k - 1\<close> downwards,
  up to the first set bit: the number of leading zeros of the \<open>k\<close>-bit field.\<close>

fun leading_zeros :: "nat \<Rightarrow> int \<Rightarrow> nat" where
  "leading_zeros 0 r = 0"
| "leading_zeros (Suc j) r = (if bit r j then 0 else Suc (leading_zeros j r))"

definition msb_rank :: "nat \<Rightarrow> int \<Rightarrow> int" where
  "msb_rank k r = (if r = 0 then int k else int (leading_zeros k r) + 1)"

text \<open>\<open>trailing_zeros k r\<close> counts the zero bits of \<open>r\<close> from bit \<open>0\<close> upwards, up to
  the first set bit: the position of the least-significant set bit of the field.\<close>

fun trailing_zeros :: "nat \<Rightarrow> int \<Rightarrow> nat" where
  "trailing_zeros 0 r = 0"
| "trailing_zeros (Suc j) r = (if odd r then 0 else Suc (trailing_zeros j (r div 2)))"

definition lsb_rank :: "nat \<Rightarrow> int \<Rightarrow> int" where
  "lsb_rank k r = (if r = 0 then int k else 1 + int (trailing_zeros k r))"

text \<open>The estimator after the custom update, as a formula in the digest: with \<open>v\<close> the
  big-endian value of the first eight digest bytes and \<open>b\<close> the number of index bits,
  the register \<open>v mod 2^b\<close> becomes \<^verbatim>\<open>Math.max\<close> of its old value and the rank of the
  remainder \<open>v div 2^b\<close> in its field of \<open>64 - b\<close> bits; no other register changes.\<close>

definition add_digest :: "HyperLogLog \<Rightarrow> byte list \<Rightarrow> HyperLogLog" where
  "add_digest est digest =
     (let v = be_value (take 8 digest);
          b = nbBytesPerHash est;
          index = nat (v mod 2 ^ b);
          rank = msb_rank (64 - b) (v div 2 ^ b)
      in est\<lparr>registers :=
               arr_set (registers est) index
                 (Math_max (arr_get (registers est) index) rank)\<rparr>)"

text \<open>The update as the specification words it: the rank is one more than the position
  of the least-significant set bit of the remainder field.\<close>

definition spec_add_digest :: "HyperLogLog \<Rightarrow> byte list \<Rightarrow> js_error + HyperLogLog" where
  "spec_add_digest hll digest =
     (if length digest < 8 then Inl TypeError
      else
        (let v = be_value (take 8 digest);
             b = nbBytesPerHash hll;
             index = nat (v mod 2 ^ b);
             rank = lsb_rank (64 - b) (v div 2 ^ b)
         in Inr (hll\<lparr>registers :=
                   arr_set (registers hll) index
                     (Math_max (arr_get (registers hll) index) rank)\<rparr>)))"

text \<open>The \<open>k\<close> low bits of \<open>r\<close> as a string of binary digits, most significant first.\<close>

definition bits_msb :: "nat \<Rightarrow> int \<Rightarrow> string" where
  "bits_msb k r = map (\<lambda>j. if bit r j then CHR ''1'' else CHR ''0'') (rev [0..<k])"

text \<open>An estimator as the server configures it: ten index bits, 1024 registers, every
  register a number between 0 and 54.\<close>

definition configured :: "HyperLogLog \<Rightarrow> bool" where
  "configured hll \<longleftrightarrow>
     nbBytesPerHash hll = 10 \<and> length (registers hll) = HLL_REGISTERS \<and>
     (\<forall>x \<in> set (registers hll). \<exists>n. x = Num n \<and> 0 \<le> n \<and> n \<le> 54)"

section \<open>Library functions and built-ins as parameters\<close>

text \<open>
  The \<^verbatim>\<open>timestamp\<close> field of a request body is a JSON number or a JSON string.
\<close>

datatype ts_field = TsNum int | TsStr string

text \<open>
  The functions of the packages \<^verbatim>\<open>@noble/hashes\<close>, \<^verbatim>\<open>@noble/curves\<close>,
  \<^verbatim>\<open>@scure/base\<close> and \<^verbatim>\<open>bloom-filters\<close>, and the built-ins \<^verbatim>\<open>parseInt\<close> and
  string conversion, are parameters of the model. A call that throws returns \<open>Inl\<close>.
  \<open>parseInt\<close> returns \<open>None\<close> for \<^verbatim>\<open>NaN\<close>. The membership filter is an abstract type
  \<open>'b\<close>. \<open>hll_count\<close> is the estimate \<^verbatim>\<open>hll.count()\<close>, a JavaScript number taken as a
  real. \<open>hll_merge a b\<close> is the estimator \<open>a\<close> after the call \<^verbatim>\<open>a.merge(b)\<close>, or the
  exception the call throws; what the call returns is not a parameter, since every caller
  discards it.
\<close>

record 'b libs =
  blake3 :: "byte list \<Rightarrow> byte list"
  bech32_decode :: "string \<Rightarrow> nat \<Rightarrow> js_error + (string \<times> nat list)"
  bech32_fromWords :: "nat list \<Rightarrow> js_error + byte list"
  ed25519_verify :: "byte list \<Rightarrow> byte list \<Rightarrow> byte list \<Rightarrow> js_error + bool"
  parseInt :: "ts_field \<Rightarrow> int option"
  toString :: "ts_field \<Rightarrow> string"
  bloom_has :: "'b \<Rightarrow> string \<Rightarrow> bool"
  bloom_add :: "'b \<Rightarrow> string \<Rightarrow> 'b"
  hll_count :: "HyperLogLog \<Rightarrow> real"
  hll_merge :: "HyperLogLog \<Rightarrow> HyperLogLog \<Rightarrow> js_error + HyperLogLog"

definition NONCE_WINDOW_MS :: int where
  "NONCE_WINDOW_MS = 60000"

section \<open>Signature verification\<close>

datatype log_line = LogError string js_error

fun bind_err :: "js_error + 'a \<Rightarrow> ('a \<Rightarrow> js_error + 'c) \<Rightarrow> js_error + 'c" where
  "bind_err (Inl err) f = Inl err"
| "bind_err (Inr x) f = f x"

text \<open>The body of the \<^verbatim>\<open>try\<close> block of \<^verbatim>\<open>verifySignature\<close>.\<close>

definition verifySignature_try :: "'b libs \<Rightarrow> string \<Rightarrow> string \<Rightarrow> string \<Rightarrow> js_error + bool" where
  "verifySignature_try L message sg pk =
     bind_err (bech32_decode L sg 999) (\<lambda>sigDecoded.
     bind_err (bech32_decode L pk 999) (\<lambda>pkDecoded.
     bind_err (bech32_fromWords L (snd sigDecoded)) (\<lambda>sigBytes.
     bind_err (bech32_fromWords L (snd pkDecoded)) (\<lambda>pkBytes.
     ed25519_verify L sigBytes (utf8ToBytes message) pkBytes))))"

text \<open>\<^verbatim>\<open>verifySignature\<close>: the result and the lines written by \<^verbatim>\<open>console.error\<close>.\<close>

definition verifySignature :: "'b libs \<Rightarrow> string \<Rightarrow> string \<Rightarrow> string \<Rightarrow> bool \<times> log_line list" where
  "verifySignature L message sg pk =
     (case verifySignature_try L message sg pk of
        Inl err \<Rightarrow> (False, [LogError ''Signature verification error:'' err])
      | Inr ok \<Rightarrow> (ok, []))"

section \<open>Server state and daily files\<close>

record daily_data =
  hll :: HyperLogLog
  newUsersHll :: HyperLogLog

text \<open>A file of \<^verbatim>\<open>data/daily\<close>: either it does not parse, or it holds the day's estimator
  and, optionally, the day's new-users estimator.\<close>

datatype daily_file = Corrupt | DailyJson HyperLogLog "HyperLogLog option"

text \<open>
  The process state: the nonce map, the global estimator and filter, the files of
  \<^verbatim>\<open>data/daily\<close> by file name, the two global snapshot files, and the aggregation
  tasks queued by \<^verbatim>\<open>setImmediate\<close>. Writing a file is taken to succeed.
\<close>

record 'b server_state =
  usedNonces :: "string \<rightharpoonup> int"
  allHLL :: HyperLogLog
  allBloom :: 'b
  daily_files :: "(string \<times> daily_file) list"
  all_hll_file :: "HyperLogLog option"
  all_bf_file :: "'b option"
  pending :: "string list"

definition getDailyData :: "(string \<times> daily_file) list \<Rightarrow> string \<Rightarrow> js_error + daily_data" where
  "getDailyData files dateKey =
     (case map_of files (dateKey @ ''.hll.json'') of
        None \<Rightarrow>
          Inr \<lparr>hll = new_HyperLogLog HLL_REGISTERS, newUsersHll = new_HyperLogLog HLL_REGISTERS\<rparr>
      | Some Corrupt \<Rightarrow> Inl (LibError ''JSON'')
      | Some (DailyJson h nu) \<Rightarrow>
          Inr \<lparr>hll = h,
               newUsersHll = (case nu of Some x \<Rightarrow> x | None \<Rightarrow> new_HyperLogLog HLL_REGISTERS)\<rparr>)"

definition saveDailyData ::
  "(string \<times> daily_file) list \<Rightarrow> string \<Rightarrow> daily_data \<Rightarrow> (string \<times> daily_file) list" where
  "saveDailyData files dateKey data =
     AList.update (dateKey @ ''.hll.json'') (DailyJson (hll data) (Some (newUsersHll data))) files"


section \<open>The ingest handler\<close>

text \<open>The body of a request, at the types of the interface: each field may be absent; a
  field that is present is a string, the timestamp a number or a string.\<close>

record request =
  publicKey :: "string option"
  timestamp :: "ts_field option"
  nonce :: "string option"
  signature :: "string option"

datatype response = ErrorResponse nat string | SuccessResponse string bool real

text \<open>The steps of the handler, recorded in the order in which they run.\<close>

datatype step =
    CheckFields | CheckTimestamp | CheckNonce | VerifySignature
  | MarkNonce | LoadDaily | TestFilter | AddToFilter
  | UpdateGlobal | UpdateDaily | UpdateNewUsers | Persist | Respond

record 'b outcome =
  response :: response
  after :: "'b server_state"
  console :: "log_line list"
  steps :: "step list"

text \<open>\<^verbatim>\<open>!timestamp\<close> holds for a missing field, the number 0 and the empty string.\<close>

fun truthy_ts :: "ts_field \<Rightarrow> bool" where
  "truthy_ts (TsNum n) = (n \<noteq> 0)"
| "truthy_ts (TsStr s) = (s \<noteq> [])"

text \<open>\<^verbatim>\<open>if (!publicKey || !timestamp || !nonce || !signature)\<close>: the four fields when all
  are present and truthy.\<close>

definition required_fields :: "request \<Rightarrow> (string \<times> ts_field \<times> string \<times> string) option" where
  "required_fields req =
     (case (publicKey req, timestamp req, nonce req, signature req) of
        (Some pk, Some ts, Some n, Some sg) \<Rightarrow>
          if pk = [] \<or> \<not> truthy_ts ts \<or> n = [] \<or> sg = [] then None else Some (pk, ts, n, sg)
      | _ \<Rightarrow> None)"

text \<open>\<^verbatim>\<open>Math.abs(now - msgTime) > NONCE_WINDOW_MS\<close>; the comparison is false when
  \<^verbatim>\<open>parseInt\<close> gives \<^verbatim>\<open>NaN\<close>.\<close>

definition stale :: "'b libs \<Rightarrow> int \<Rightarrow> ts_field \<Rightarrow> bool" where
  "stale L now ts =
     (case parseInt L ts of None \<Rightarrow> False | Some msgTime \<Rightarrow> \<bar>now - msgTime\<bar> > NONCE_WINDOW_MS)"

text \<open>The \<^verbatim>\<open>catch\<close> block of the handler.\<close>

definition internal_error ::
  "'b server_state \<Rightarrow> js_error \<Rightarrow> log_line list \<Rightarrow> step list \<Rightarrow> 'b outcome" where
  "internal_error st err out sofar =
     \<lparr>response = ErrorResponse 500 ''internal'', after = st,
      console = out @ [LogError ''Ingest error:'' err], steps = sofar\<rparr>"

text \<open>The handler after the four checks have passed: from marking the nonce to the
  response. An exception leaves the state as it is at that point.\<close>

definition ingest_accept ::
  "'b libs \<Rightarrow> int \<Rightarrow> string \<Rightarrow> 'b server_state \<Rightarrow> string \<Rightarrow> string \<Rightarrow> log_line list \<Rightarrow> 'b outcome" where
  "ingest_accept L now dateKey st pk n out =
     (let st1 = st\<lparr>usedNonces := (usedNonces st)(n \<mapsto> now)\<rparr>;
          userHash = bytesToHex (blake3 L (utf8ToBytes pk));
          s1 = [CheckFields, CheckTimestamp, CheckNonce, VerifySignature, MarkNonce, LoadDaily]
      in case getDailyData (daily_files st1) dateKey of
           Inl err \<Rightarrow> internal_error st1 err out s1
         | Inr dailyData \<Rightarrow>
             (let isNewUser = \<not> bloom_has L (allBloom st1) userHash;
                  st2 = st1\<lparr>allBloom := bloom_add L (allBloom st1) userHash\<rparr>;
                  s2 = s1 @ [TestFilter, AddToFilter, UpdateGlobal]
              in case customHllUpdate (blake3 L) (allHLL st2) (EStr userHash) of
                   Inl err \<Rightarrow> internal_error st2 err out s2
                 | Inr allHLL' \<Rightarrow>
                     (let st3 = st2\<lparr>allHLL := allHLL'\<rparr>;
                          s3 = s2 @ [UpdateDaily]
                      in case customHllUpdate (blake3 L) (hll dailyData) (EStr userHash) of
                           Inl err \<Rightarrow> internal_error st3 err out s3
                         | Inr hll' \<Rightarrow>
                             (let s4 = (if isNewUser then s3 @ [UpdateNewUsers] else s3)
                              in case (if isNewUser
                                       then customHllUpdate (blake3 L) (newUsersHll dailyData)
                                              (EStr userHash)
                                       else Inr (newUsersHll dailyData)) of
                                   Inl err \<Rightarrow> internal_error st3 err out s4
                                 | Inr newUsersHll' \<Rightarrow>
                                     (let dailyData' = \<lparr>hll = hll', newUsersHll = newUsersHll'\<rparr>;
                                          st4 = st3
                                            \<lparr>daily_files :=
                                               saveDailyData (daily_files st3) dateKey dailyData',
                                             all_hll_file := Some (allHLL st3),
                                             all_bf_file := Some (allBloom st3),
                                             pending := pending st3 @ [dateKey]\<rparr>
                                      in \<lparr>response =
                                            SuccessResponse dateKey isNewUser (hll_count L hll'),
                                          after = st4, console = out,
                                          steps = s4 @ [Persist, Respond]\<rparr>)))))"

text \<open>\<^verbatim>\<open>app.post('/ingest', ...)\<close> at the clock reading \<open>now\<close> and the day \<open>dateKey\<close>.\<close>

definition ingest ::
  "'b libs \<Rightarrow> int \<Rightarrow> string \<Rightarrow> 'b server_state \<Rightarrow> request \<Rightarrow> 'b outcome" where
  "ingest L now dateKey st req =
     (case required_fields req of
        None \<Rightarrow>
          \<lparr>response = ErrorResponse 400 ''Missing required fields'', after = st,
           console = [], steps = [CheckFields]\<rparr>
      | Some (pk, ts, n, sg) \<Rightarrow>
          if stale L now ts then
            \<lparr>response = ErrorResponse 400 ''Timestamp too old or in future'', after = st,
             console = [], steps = [CheckFields, CheckTimestamp]\<rparr>
          else if usedNonces st n \<noteq> None then
            \<lparr>response = ErrorResponse 400 ''Nonce already used (replay attack?)'', after = st,
             console = [], steps = [CheckFields, CheckTimestamp, CheckNonce]\<rparr>
          else
            (let message = toString L ts @ '':'' @ n;
                 (ok, out) = verifySignature L message sg pk
             in if \<not> ok then
                  \<lparr>response = ErrorResponse 401 ''Invalid signature'', after = st,
                   console = out,
                   steps = [CheckFields, CheckTimestamp, CheckNonce, VerifySignature]\<rparr>
                else ingest_accept L now dateKey st pk n out))"

text \<open>What happens to the process over time: a clean-up at a clock reading, or a
  request at a clock reading and a day.\<close>

datatype event = Sweep int | Ingest int string request




section \<open>Merging estimators\<close>

text \<open>\<^verbatim>\<open>Math.max(a, b)\<close> on two register values.\<close>

fun Math_max2 :: "jsnum \<Rightarrow> jsnum \<Rightarrow> jsnum" where
  "Math_max2 (Num a) (Num b) = Num (max a b)"
| "Math_max2 (Num a) NaN = NaN"
| "Math_max2 (Num a) Undefined = NaN"
| "Math_max2 NaN b = NaN"
| "Math_max2 Undefined b = NaN"

text \<open>Modelled from the spec: the method \<^verbatim>\<open>merge\<close> of the estimator belongs to the
  \<^verbatim>\<open>bloom-filters\<close> package and is not part of the sources; only its callers are. The
  specification says: \<open>merge(other)\<close> requires \<open>other\<close> to have the same register count
  \<open>m\<close>; the result is the pointwise maximum of the two register arrays; a mismatched
  register count must fail loudly.\<close>

definition merge :: "HyperLogLog \<Rightarrow> HyperLogLog \<Rightarrow> js_error + HyperLogLog" where
  "merge a b =
     (if length (registers a) \<noteq> length (registers b)
      then Inl (LibError ''register counts differ'')
      else Inr (a\<lparr>registers := map2 Math_max2 (registers a) (registers b)\<rparr>))"

text \<open>An estimator of the specification's data model with register count \<open>m\<close>: \<open>m\<close>
  registers, each a number that is not negative, and \<open>log2 m\<close> index bits.\<close>

definition estimator :: "nat \<Rightarrow> HyperLogLog \<Rightarrow> bool" where
  "estimator m h \<longleftrightarrow>
     length (registers h) = m \<and> nbBytesPerHash h = log2 m \<and>
     (\<forall>x \<in> set (registers h). \<exists>n. x = Num n \<and> 0 \<le> n)"

text \<open>The receiver after the call \<^verbatim>\<open>a.merge(b)\<close> in the \<^verbatim>\<open>bloom-filters\<close> package: the
  method throws when the register counts differ; otherwise it builds the merged
  estimator as a new object, which it returns, and leaves the receiver as it was.\<close>

definition receiver_after_merge :: "HyperLogLog \<Rightarrow> HyperLogLog \<Rightarrow> js_error + HyperLogLog" where
  "receiver_after_merge a b = (case merge a b of Inl err \<Rightarrow> Inl err | Inr merged \<Rightarrow> Inr a)"

section \<open>The replay guard as the specification words it\<close>


section \<open>A test instance of the library parameters\<close>

text \<open>
  Stand-ins for the library functions, used for the concrete examples only: a hash that
  pads or cuts its input to 32 bytes; a decoder that wants the separator \<open>1\<close>; a
  signature check that throws on an empty signature and otherwise compares signature
  and key; a filter that is a list; a count of the registers that are not zero; and the
  merge of the package, which leaves its receiver unchanged.
\<close>

definition test_libs :: "string list libs" where
  "test_libs =
     \<lparr>blake3 = (\<lambda>bs. take 32 (bs @ replicate 32 0)),
      bech32_decode = (\<lambda>s limit.
         if CHR ''1'' \<notin> set s \<or> limit < length s then Inl (LibError ''bech32'')
         else Inr (takeWhile (\<lambda>c. c \<noteq> CHR ''1'') s,
                   map of_char (tl (dropWhile (\<lambda>c. c \<noteq> CHR ''1'') s)))),
      bech32_fromWords = (\<lambda>ws. Inr (map of_nat ws)),
      ed25519_verify = (\<lambda>sg msg pk. if sg = [] then Inl (LibError ''length'') else Inr (sg = pk)),
      parseInt = (\<lambda>ts. case ts of TsNum n \<Rightarrow> Some n | TsStr s \<Rightarrow> None),
      toString = (\<lambda>ts. case ts of TsNum n \<Rightarrow> ''n'' | TsStr s \<Rightarrow> s),
      bloom_has = (\<lambda>b x. x \<in> set b),
      bloom_add = (\<lambda>b x. x # b),
      hll_count = (\<lambda>h. real (length (filter (\<lambda>r. r \<noteq> Num 0) (registers h)))),
      hll_merge = receiver_after_merge\<rparr>"

definition test_state :: "string list server_state" where
  "test_state =
     \<lparr>usedNonces = Map.empty, allHLL = new_HyperLogLog HLL_REGISTERS, allBloom = [],
      daily_files = [], all_hll_file = None, all_bf_file = None, pending = []\<rparr>"

text \<open>A request whose signature the test instance accepts, and one it rejects.\<close>

definition test_request :: "int \<Rightarrow> string \<Rightarrow> request" where
  "test_request t n =
     \<lparr>publicKey = Some ''k1abc'', timestamp = Some (TsNum t), nonce = Some n,
      signature = Some ''s1abc''\<rparr>"

definition bad_request :: "int \<Rightarrow> string \<Rightarrow> request" where
  "bad_request t n =
     \<lparr>publicKey = Some ''k1abc'', timestamp = Some (TsNum t), nonce = Some n,
      signature = Some ''s1abd''\<rparr>"

section \<open>The stats handler\<close>

text \<open>\<^verbatim>\<open>s.endsWith(suffix)\<close>, and \<^verbatim>\<open>s.replace(pat, rep)\<close> for a string pattern, which
  replaces the first occurrence only.\<close>

definition endsWith :: "string \<Rightarrow> string \<Rightarrow> bool" where
  "endsWith s suffix \<longleftrightarrow>
     length suffix \<le> length s \<and> drop (length s - length suffix) s = suffix"

fun replace_first :: "string \<Rightarrow> string \<Rightarrow> string \<Rightarrow> string" where
  "replace_first pat rep [] = (if pat = [] then rep else [])"
| "replace_first pat rep (c # cs) =
     (if take (length pat) (c # cs) = pat then rep @ drop (length pat) (c # cs)
      else c # replace_first pat rep cs)"

text \<open>\<^verbatim>\<open>readdirSync('data/daily').filter(f => f.endsWith('.hll.json')).sort().reverse()\<close>;
  strings are compared unit by unit.\<close>

definition list_files :: "(string \<times> daily_file) list \<Rightarrow> string list" where
  "list_files dir = rev (sort (filter (\<lambda>f. endsWith f ''.hll.json'') (map fst dir)))"

text \<open>\<^verbatim>\<open>Math.round\<close> rounds to the nearest integer, a half upwards.\<close>

definition Math_round :: "real \<Rightarrow> int" where
  "Math_round x = \<lfloor>x + 1 / 2\<rfloor>"

record retention_record =
  cohortDate :: string
  returnDate :: string
  cohortSize :: int
  returnedUsers :: int
  retentionRate :: real

text \<open>\<^verbatim>\<open>calcRetention\<close> over the list \<open>files\<close> and the directory \<open>dir\<close>; \<open>None\<close> is
  \<^verbatim>\<open>null\<close>. Estimates are taken as reals.\<close>

definition calcRetention ::
  "'b libs \<Rightarrow> (string \<times> daily_file) list \<Rightarrow> string list \<Rightarrow> nat \<Rightarrow> nat
     \<Rightarrow> js_error + retention_record option" where
  "calcRetention L dir files cohortIdx returnIdx =
     (if length files \<le> max cohortIdx returnIdx then Inr None
      else
        (let cDate = replace_first ''.hll.json'' [] (files ! cohortIdx);
             rDate = replace_first ''.hll.json'' [] (files ! returnIdx)
         in bind_err (getDailyData dir cDate) (\<lambda>cohortData.
            bind_err (getDailyData dir rDate) (\<lambda>returnData.
              (let cSize = hll_count L (hll cohortData);
                   returnSize = hll_count L (hll returnData)
               in bind_err (hll_merge L (new_HyperLogLog HLL_REGISTERS) (hll cohortData))
                    (\<lambda>union1.
                  bind_err (hll_merge L union1 (hll returnData)) (\<lambda>unionHLL.
                    (let unionSize = hll_count L unionHLL;
                         retained = max 0 (cSize + returnSize - unionSize);
                         rate = (if cSize > 0 then retained / cSize * 100 else 0)
                     in Inr (Some
                          \<lparr>cohortDate = cDate, returnDate = rDate,
                           cohortSize = Math_round cSize,
                           returnedUsers = Math_round retained,
                           retentionRate = real_of_int (Math_round (rate * 100)) / 100\<rparr>)))))))))"

text \<open>The retention estimate as the specification words it: the overlap is
  \<open>|A| + |B| - |A \<union> B|\<close>, the union being estimated by a third estimator formed by
  merging both, clamped at zero; the rate is \<open>overlap / |A| * 100\<close> when \<open>|A| > 0\<close> and
  \<open>0\<close> otherwise.\<close>

definition spec_retention ::
  "(HyperLogLog \<Rightarrow> real) \<Rightarrow> HyperLogLog \<Rightarrow> HyperLogLog \<Rightarrow> js_error + real \<times> real" where
  "spec_retention count a b =
     bind_err (merge (new_HyperLogLog HLL_REGISTERS) a) (\<lambda>u1.
     bind_err (merge u1 b) (\<lambda>u.
       (let overlap = max 0 (count a + count b - count u);
            rate = (if count a > 0 then overlap / count a * 100 else 0)
        in Inr (overlap, rate))))"

record retention_summary =
  d1 :: "retention_record option"
  d7 :: "retention_record option"
  d30 :: "retention_record option"

text \<open>The object \<^verbatim>\<open>retention\<close> of the stats handler.\<close>

definition retention_of ::
  "'b libs \<Rightarrow> (string \<times> daily_file) list \<Rightarrow> string list \<Rightarrow> js_error + retention_summary" where
  "retention_of L dir files =
     bind_err (if length files \<ge> 2 then calcRetention L dir files 1 0 else Inr None) (\<lambda>r1.
     bind_err (if length files \<ge> 2
               then calcRetention L dir files (min 7 (length files - 1)) 0 else Inr None) (\<lambda>r7.
     bind_err (if length files \<ge> 2
               then calcRetention L dir files (min 30 (length files - 1)) 0 else Inr None) (\<lambda>r30.
     Inr \<lparr>d1 = r1, d7 = r7, d30 = r30\<rparr>)))"

record day_summary =
  date :: string
  dau :: real
  newUsers :: real

text \<open>\<^verbatim>\<open>files.slice(0, 30).map(...)\<close>: one summary per file; an exception ends the map.\<close>

fun recentDays_of ::
  "'b libs \<Rightarrow> (string \<times> daily_file) list \<Rightarrow> string list \<Rightarrow> js_error + day_summary list" where
  "recentDays_of L dir [] = Inr []"
| "recentDays_of L dir (file # files) =
     (let dateKey = replace_first ''.hll.json'' [] file
      in bind_err (getDailyData dir dateKey) (\<lambda>dailyData.
         bind_err (recentDays_of L dir files) (\<lambda>rest.
           Inr (\<lparr>date = dateKey, dau = hll_count L (hll dailyData),
                 newUsers = hll_count L (newUsersHll dailyData)\<rparr> # rest))))"

text \<open>The \<^verbatim>\<open>forEach\<close> that merges the days after the first into the window estimator.\<close>

fun merge_days ::
  "'b libs \<Rightarrow> (string \<times> daily_file) list \<Rightarrow> HyperLogLog \<Rightarrow> string list \<Rightarrow> js_error + HyperLogLog" where
  "merge_days L dir acc [] = Inr acc"
| "merge_days L dir acc (file # files) =
     bind_err (getDailyData dir (replace_first ''.hll.json'' [] file)) (\<lambda>dailyData.
     bind_err (hll_merge L acc (hll dailyData)) (\<lambda>acc'.
       merge_days L dir acc' files))"

text \<open>The estimator of the last \<open>days\<close> days: a copy of the first day's estimator with the
  others merged in, or a new estimator when there is no file.\<close>

definition window_hll ::
  "'b libs \<Rightarrow> (string \<times> daily_file) list \<Rightarrow> string list \<Rightarrow> nat \<Rightarrow> js_error + HyperLogLog" where
  "window_hll L dir files days =
     (case take (min days (length files)) files of
        [] \<Rightarrow> Inr (new_HyperLogLog HLL_REGISTERS)
      | file # rest \<Rightarrow>
          bind_err (getDailyData dir (replace_first ''.hll.json'' [] file)) (\<lambda>dailyData.
            merge_days L dir (hll dailyData) rest))"

record stats_body =
  allTime :: real
  wau :: real
  mau :: real
  recentDays :: "day_summary list"
  retention :: retention_summary

datatype stats_response = StatsOk stats_body | StatsError nat string

text \<open>\<^verbatim>\<open>app.get('/api/stats', ...)\<close>: any exception gives the status 500.\<close>

definition stats :: "'b libs \<Rightarrow> 'b server_state \<Rightarrow> stats_response" where
  "stats L st =
     (let dir = daily_files st;
          files = list_files dir
      in case
           bind_err (recentDays_of L dir (take 30 files)) (\<lambda>days.
           bind_err (window_hll L dir files 7) (\<lambda>wauHLL.
           bind_err (window_hll L dir files 30) (\<lambda>mauHLL.
           bind_err (retention_of L dir files) (\<lambda>ret.
             Inr \<lparr>allTime = hll_count L (allHLL st), wau = hll_count L wauHLL,
                  mau = hll_count L mauHLL, recentDays = days, retention = ret\<rparr>))))
         of Inl err \<Rightarrow> StatsError 500 ''internal''
          | Inr body \<Rightarrow> StatsOk body)"

text \<open>The retention object of the second draft in \<^verbatim>\<open>server.js\<close>
  (\<^verbatim>\<open>calculateRetention\<close>), with \<^verbatim>\<open>calculateRetentionRate\<close> as a parameter that
  returns \<^verbatim>\<open>null\<close> when it catches an exception.\<close>

definition calculateRetention ::
  "(string \<Rightarrow> string \<Rightarrow> 'r option) \<Rightarrow> string list \<Rightarrow> 'r option \<times> 'r option \<times> 'r option" where
  "calculateRetention calculateRetentionRate files =
     (let r1 = (if length files \<ge> 2 then calculateRetentionRate (files ! 1) (files ! 0) else None);
          r7 = (if length files \<ge> 8 then calculateRetentionRate (files ! 7) (files ! 0) else None);
          r30 = (if length files \<ge> 31 then calculateRetentionRate (files ! 30) (files ! 0) else None)
      in (r1, r7, r30))"

text \<open>An estimator with one register set, and a directory with three daily files that
  hold it, for the concrete examples.\<close>

definition test_hll :: HyperLogLog where
  "test_hll =
     (new_HyperLogLog HLL_REGISTERS)
       \<lparr>registers := (registers (new_HyperLogLog HLL_REGISTERS))[0 := Num 3]\<rparr>"

definition test_dir :: "(string \<times> daily_file) list" where
  "test_dir =
     [(''2024-01-01.hll.json'', DailyJson test_hll None),
      (''notes.txt'', Corrupt),
      (''2024-01-03.hll.json'', DailyJson test_hll None),
      (''2024-01-02.hll.json'', DailyJson test_hll None)]"

text \<open>The test state with these daily files.\<close>

definition test_dir_state :: "string list server_state" where
  "test_dir_state = test_state\<lparr>daily_files := test_dir\<rparr>"

section \<open>The digest value\<close>

lemma be_value_bounds: "0 \<le> be_value bs \<and> be_value bs < 256 ^ length bs"
proof (induction bs)
  case Nil
  show ?case by simp
next
  case (Cons b bs)
  have b: "0 \<le> uint b" "uint b \<le> 255"
    using uint_lt2p [of b] by simp_all
  define p :: int where "p = 256 ^ length bs"
  have "uint b * p \<le> 255 * p" "0 \<le> uint b * p"
    using b by (simp_all add: p_def)
  moreover have "0 \<le> be_value bs" "be_value bs < p"
    using Cons by (simp_all add: p_def)
  ultimately have "0 \<le> uint b * p + be_value bs \<and> uint b * p + be_value bs < 256 * p"
    by linarith
  then show ?case by (simp add: p_def)
qed

lemma or_byte: "push_bit 8 v OR uint (b::byte) = v * 256 + uint b"
proof -
  have "push_bit 8 v + uint b = push_bit 8 v OR uint b"
    by (rule disjunctive_add) (auto simp add: bit_simps dest: bit_imp_le_length)
  then show ?thesis by (simp add: push_bit_eq_mult)
qed

lemma hashTo64_loop_value:
  "n \<le> length bs \<Longrightarrow> hashTo64_loop n v bs = Inr (v * 256 ^ n + be_value (take n bs))"
proof (induction n arbitrary: v bs)
  case 0
  show ?case by simp
next
  case (Suc n)
  then obtain b bs' where bs: "bs = b # bs'" and len: "n \<le> length bs'"
    by (cases bs) auto
  show ?case
    using Suc.IH [OF len, of "v * 256 + uint b"] len
    by (simp add: bs or_byte algebra_simps min_def)
qed

lemma hashTo64_loop_short:
  "length bs < n \<Longrightarrow> hashTo64_loop n v bs = Inl TypeError"
proof (induction n arbitrary: v bs)
  case 0
  then show ?case by simp
next
  case (Suc n)
  then show ?case by (cases bs) auto
qed

lemma hashTo64BigInt_value:
  "8 \<le> length bs \<Longrightarrow> hashTo64BigInt bs = Inr (be_value (take 8 bs))"
  by (simp add: hashTo64BigInt_def hashTo64_loop_value)

lemma registerIndex_mod:
  "registerIndex est v = nat (v mod 2 ^ nbBytesPerHash est)"
  by (simp add: registerIndex_def take_bit_eq_mod flip: mask_eq_exp_minus_1 take_bit_eq_mask)

lemma bits_msb_Suc_top:
  "bits_msb (Suc k) r = (if bit r k then CHR ''1'' else CHR ''0'') # bits_msb k r"
  by (simp add: bits_msb_def)

lemma bits_msb_Suc_low:
  "bits_msb (Suc k) r = bits_msb k (r div 2) @ [if odd r then CHR ''1'' else CHR ''0'']"
proof -
  have "[0..<Suc k] = 0 # map Suc [0..<k]"
    by (simp add: upt_conv_Cons map_Suc_upt del: upt_Suc)
  then show ?thesis
    by (simp add: bits_msb_def rev_map bit_Suc bit_0 comp_def del: upt_Suc)
qed

lemma bits_msb_zero: "bits_msb k 0 = replicate k CHR ''0''"
  by (induction k) (simp_all add: bits_msb_Suc_top bits_msb_def replicate_append_same)

lemma bin_digits_pad:
  "n < 2 ^ k \<Longrightarrow> replicate (k - length (bin_digits n)) CHR ''0'' @ bin_digits n = bits_msb k (int n)"
proof (induction k arbitrary: n)
  case 0
  then show ?case by (simp add: bin_digits.simps bits_msb_def)
next
  case (Suc k)
  show ?case
  proof (cases "n = 0")
    case True
    then show ?thesis
      using bits_msb_zero [of "Suc k"] by (simp add: bin_digits.simps)
  next
    case False
    from Suc.prems have half: "n div 2 < 2 ^ k" by simp
    have digits: "bin_digits n = bin_digits (n div 2) @ [if odd n then CHR ''1'' else CHR ''0'']"
      using False by (subst bin_digits.simps) simp
    have "int n div 2 = int (n div 2)" by simp
    then show ?thesis
      using Suc.IH [OF half] by (simp add: digits bits_msb_Suc_low)
  qed
qed

lemma indexOf_bits_msb:
  "indexOf (bits_msb k r) CHR ''1'' =
     (if leading_zeros k r = k then - 1 else int (leading_zeros k r))"
  by (induction k) (simp_all add: bits_msb_Suc_top bits_msb_def Let_def)

lemma leading_zeros_le: "leading_zeros k r \<le> k"
  by (induction k) simp_all

lemma leading_zeros_full: "leading_zeros k r = k \<Longrightarrow> j < k \<Longrightarrow> \<not> bit r j"
proof (induction k)
  case 0
  then show ?case by simp
next
  case (Suc k)
  then show ?case
    using leading_zeros_le [of k r] by (auto simp: less_Suc_eq split: if_splits)
qed

lemma leading_zeros_lt:
  assumes "0 < r" "r < 2 ^ k"
  shows "leading_zeros k r < k"
proof (rule ccontr)
  assume "\<not> leading_zeros k r < k"
  with leading_zeros_le [of k r] have full: "leading_zeros k r = k" by simp
  have "take_bit k r = 0"
    by (rule bit_eqI) (auto simp: bit_simps dest: leading_zeros_full [OF full])
  moreover have "take_bit k r = r"
    using assms by (simp add: take_bit_int_eq_self)
  ultimately show False using assms by simp
qed

lemma rho_msb:
  assumes v: "0 \<le> v" "v < 2 ^ 64" and b: "nbBytesPerHash est \<le> 64"
  shows "rho est v = msb_rank (64 - nbBytesPerHash est) (drop_bit (nbBytesPerHash est) v)"
proof -
  define b where "b = nbBytesPerHash est"
  define k where "k = 64 - b"
  define r where "r = drop_bit b v"
  have kb: "k + b = 64" "int k = 64 - int b" using b by (simp_all add: k_def b_def)
  have r0: "0 \<le> r" using v by (simp add: r_def)
  have "take_bit 64 v = v" using v by (simp add: take_bit_int_eq_self)
  then have "r = drop_bit b (take_bit 64 v)" by (simp add: r_def)
  then have "r = take_bit k r" by (simp add: drop_bit_take_bit k_def r_def)
  then have rk: "r < 2 ^ k" using take_bit_int_less_exp [of k r] by simp
  have nat_r: "nat r < 2 ^ k" using rk r0 by (simp add: nat_less_iff)
  show ?thesis
  proof (cases "r = 0")
    case True
    have "indexOf (replicate n CHR ''0'' @ ''0'') CHR ''1'' = - 1" for n
      by (induction n) simp_all
    then show ?thesis
      using True kb by (simp add: rho_def msb_rank_def Let_def toString2_def padStart_def
        flip: b_def r_def k_def)
  next
    case False
    with r0 have pos: "0 < r" by simp
    have "padStart (int k) CHR ''0'' (toString2 r) = bits_msb k r"
      using bin_digits_pad [OF nat_r] pos by (simp add: padStart_def toString2_def)
    moreover have "leading_zeros k r \<noteq> k"
      using leading_zeros_lt [OF pos rk] by simp
    ultimately show ?thesis
      using False kb by (simp add: rho_def msb_rank_def Let_def indexOf_bits_msb
        flip: b_def r_def k_def)
  qed
qed

lemma msb_rank_bounds:
  assumes "0 \<le> r" "r < 2 ^ k" "0 < k"
  shows "1 \<le> msb_rank k r \<and> msb_rank k r \<le> int k"
  using assms leading_zeros_lt [of r k] by (auto simp: msb_rank_def)

lemma customHllUpdate_digest_value:
  assumes "8 \<le> length digest" and "nbBytesPerHash est \<le> 64"
  shows "customHllUpdate_digest est digest =
     (let v = be_value (take 8 digest);
          b = nbBytesPerHash est;
          index = nat (v mod 2 ^ b);
          rank = msb_rank (64 - b) (v div 2 ^ b)
      in Inr (est\<lparr>registers :=
                arr_set (registers est) index
                  (Math_max (arr_get (registers est) index) rank)\<rparr>))"
proof -
  define v where "v = be_value (take 8 digest)"
  have "length (take 8 digest) = 8"
    using assms(1) by simp
  then have "0 \<le> v" "v < 256 ^ 8"
    using be_value_bounds [of "take 8 digest"] unfolding v_def by presburger+
  then have v: "0 \<le> v" "v < 2 ^ 64" by simp_all
  show ?thesis
    using assms(1) rho_msb [OF v assms(2)]
    by (simp add: customHllUpdate_digest_def hashTo64BigInt_value registerIndex_mod
        drop_bit_eq_div Let_def flip: v_def)
qed

section \<open>The custom update: index and rank\<close>

text \<open>
  C1 (as amended). For every element whose digest has at least eight bytes, and every
  estimator with at most 53 index bits \<open>b\<close>, the custom update reads the first eight
  digest bytes as a big-endian 64-bit value \<open>v\<close>, takes the low-order \<open>b\<close> bits of \<open>v\<close>
  as the register index, and takes as rank one more than the number of leading zeros
  of the high-order remainder \<open>v div 2 ^ b\<close> in its \<open>k = 64 - b\<close> bit field (the
  scan starts at the most significant bit of the digest), or \<open>k\<close> when the remainder
  is zero; it then sets \<open>registers[index]\<close> to \<open>Math.max(registers[index], rank)\<close>.
\<close>

theorem customHllUpdate_msb_rank:
  assumes "8 \<le> length (blake (element_bytes e))" and "nbBytesPerHash est \<le> 53"
  shows "customHllUpdate blake est e =
     (let v = be_value (take 8 (blake (element_bytes e)));
          b = nbBytesPerHash est;
          index = nat (v mod 2 ^ b);
          rank = msb_rank (64 - b) (v div 2 ^ b)
      in Inr (est\<lparr>registers :=
                arr_set (registers est) index
                  (Math_max (arr_get (registers est) index) rank)\<rparr>))"
  using assms customHllUpdate_digest_value [of "blake (element_bytes e)" est]
  by (simp add: customHllUpdate_def)


text \<open>The update at a two-bit estimator and a digest whose 64-bit value is 5: the index
  is 1, the remainder is 1 with 61 leading zeros in its 62-bit field, the rank is 62.\<close>

theorem customHllUpdate_msb_rank_witness:
  "8 \<le> length (take 32 (element_bytes (EBytes [0, 0, 0, 0, 0, 0, 0, 5]) @ replicate 32 (0::byte)))
   \<and> nbBytesPerHash \<lparr>nbBytesPerHash = 2, registers = [Num 0, Num 0, Num 0, Num 0]\<rparr> \<le> 53
   \<and> customHllUpdate (\<lambda>bs. take 32 (bs @ replicate 32 0))
        \<lparr>nbBytesPerHash = 2, registers = [Num 0, Num 0, Num 0, Num 0]\<rparr>
        (EBytes [0, 0, 0, 0, 0, 0, 0, 5])
      = Inr \<lparr>nbBytesPerHash = 2, registers = [Num 0, Num 62, Num 0, Num 0]\<rparr>"
proof -
  let ?B = "\<lambda>bs::byte list. take 32 (bs @ replicate 32 0)"
  let ?H = "\<lparr>nbBytesPerHash = 2, registers = [Num 0, Num 0, Num 0, Num 0]\<rparr>"
  let ?e = "EBytes [0, 0, 0, 0, 0, 0, 0, 5]"
  have h1: "8 \<le> length (?B (element_bytes ?e))" by simp
  have h2: "nbBytesPerHash ?H \<le> 53" by simp
  have "customHllUpdate ?B ?H ?e =
     (let v = be_value (take 8 (?B (element_bytes ?e)));
          b = nbBytesPerHash ?H;
          index = nat (v mod 2 ^ b);
          rank = msb_rank (64 - b) (v div 2 ^ b)
      in Inr (?H\<lparr>registers :=
                arr_set (registers ?H) index
                  (Math_max (arr_get (registers ?H) index) rank)\<rparr>))"
    by (rule customHllUpdate_msb_rank [where blake = "?B" and e = "?e" and est = "?H", OF h1 h2])
  also have "\<dots> = Inr \<lparr>nbBytesPerHash = 2, registers = [Num 0, Num 62, Num 0, Num 0]\<rparr>"
    by code_simp
  finally show ?thesis using h1 h2 by simp
qed

section \<open>The configured estimator: the register write stays in bounds\<close>

lemma log2_1024: "log2 1024 = 10"
  by code_simp

lemma new_HyperLogLog_configured: "configured (new_HyperLogLog HLL_REGISTERS)"
  by (simp add: configured_def new_HyperLogLog_def HLL_REGISTERS_def log2_1024)

lemma configured_step:
  assumes inv: "configured est" and len: "8 \<le> length digest"
  shows "\<exists>v est'. hashTo64BigInt digest = Inr v \<and> 0 \<le> v \<and> v < 2 ^ 64
           \<and> registerIndex est v < length (registers est)
           \<and> 1 \<le> rho est v \<and> rho est v \<le> 54
           \<and> customHllUpdate_digest est digest = Inr est' \<and> configured est'"
proof -
  define v where "v = be_value (take 8 digest)"
  have "length (take 8 digest) = 8"
    using len by simp
  then have "0 \<le> v" "v < 256 ^ 8"
    using be_value_bounds [of "take 8 digest"] unfolding v_def by presburger+
  then have v: "0 \<le> v" "v < 2 ^ 64" by simp_all
  have hv: "hashTo64BigInt digest = Inr v"
    using len by (simp add: hashTo64BigInt_value v_def)
  have b: "nbBytesPerHash est = 10" and m: "length (registers est) = 1024"
    using inv by (simp_all add: configured_def HLL_REGISTERS_def)
  define i where "i = registerIndex est v"
  have "v mod 2 ^ 10 < 2 ^ 10" by (rule pos_mod_bound) simp
  then have i: "i < length (registers est)"
    by (simp add: i_def registerIndex_mod b m nat_less_iff)
  define r where "r = drop_bit 10 v"
  have "take_bit 64 v = v" using v by (simp add: take_bit_int_eq_self)
  then have "r = drop_bit 10 (take_bit 64 v)" by (simp add: r_def)
  then have "r = take_bit 54 r" by (simp add: drop_bit_take_bit r_def)
  then have r: "0 \<le> r" "r < 2 ^ 54"
    using take_bit_int_less_exp [of 54 r] v by (simp_all add: r_def)
  have rho_eq: "rho est v = msb_rank 54 r"
    using rho_msb [OF v, of est] by (simp add: b r_def)
  have rho: "1 \<le> rho est v" "rho est v \<le> 54"
    using msb_rank_bounds [OF r] by (simp_all add: rho_eq)
  obtain n where n: "registers est ! i = Num n" "0 \<le> n" "n \<le> 54"
    using inv i by (auto simp: configured_def dest!: bspec [OF _ nth_mem])
  define est' where
    "est' = est\<lparr>registers := (registers est)[i := Num (max n (rho est v))]\<rparr>"
  have upd: "customHllUpdate_digest est digest = Inr est'"
    using i n by (simp add: customHllUpdate_digest_def hv arr_get_def arr_set_def est'_def
        flip: i_def)
  have "set (registers est') \<subseteq> insert (Num (max n (rho est v))) (set (registers est))"
    by (simp add: est'_def set_update_subset_insert)
  then have "configured est'"
    using inv n rho by (auto simp: configured_def est'_def)
  then show ?thesis
    using hv v i rho upd by (auto simp: i_def)
qed

lemma customHllUpdate_all_configured:
  assumes "\<And>bs. length (blake bs) = 32"
  shows "configured est \<Longrightarrow> \<exists>est'. customHllUpdate_all blake est es = Inr est' \<and> configured est'"
proof (induction es arbitrary: est)
  case Nil
  then show ?case by simp
next
  case (Cons e es)
  have "8 \<le> length (blake (element_bytes e))" by (simp add: assms)
  from configured_step [OF Cons.prems this]
  obtain h where h: "customHllUpdate blake est e = Inr h" "configured h"
    by (auto simp: customHllUpdate_def)
  from Cons.IH [OF h(2)] h(1) show ?case by simp
qed

text \<open>
  C10. Let the hash return 32 bytes for every input. Start from the estimator constructed
  with the configured register count and apply the custom update to any list of
  elements: every update succeeds, the register array keeps its length, and for every
  further element the register index computed by \<^verbatim>\<open>customHllUpdate\<close> is below the
  length of the register array, the computed rank lies between 1 and 54, and every
  register holds a number below \<open>2 ^ 6\<close>.
\<close>

theorem customHllUpdate_in_bounds:
  assumes "\<And>bs. length (blake bs) = 32"
  shows "\<exists>est v. customHllUpdate_all blake (new_HyperLogLog HLL_REGISTERS) es = Inr est
     \<and> hashTo64BigInt (blake (element_bytes e)) = Inr v
     \<and> length (registers est) = HLL_REGISTERS
     \<and> registerIndex est v < length (registers est)
     \<and> 1 \<le> rho est v \<and> rho est v \<le> 54
     \<and> (\<forall>x \<in> set (registers est). \<exists>n. x = Num n \<and> 0 \<le> n \<and> n < 2 ^ 6)"
proof -
  obtain est where est:
    "customHllUpdate_all blake (new_HyperLogLog HLL_REGISTERS) es = Inr est" "configured est"
    using customHllUpdate_all_configured
      [where blake = blake and es = es, OF assms new_HyperLogLog_configured] by blast
  have "8 \<le> length (blake (element_bytes e))" by (simp add: assms)
  from configured_step [OF est(2) this]
  obtain v where "hashTo64BigInt (blake (element_bytes e)) = Inr v"
    "registerIndex est v < length (registers est)" "1 \<le> rho est v" "rho est v \<le> 54"
    by blast
  moreover have "\<forall>x \<in> set (registers est). \<exists>n. x = Num n \<and> 0 \<le> n \<and> n < 2 ^ 6"
    using est(2) by (fastforce simp: configured_def)
  moreover have "length (registers est) = HLL_REGISTERS"
    using est(2) by (simp add: configured_def)
  ultimately show ?thesis using est(1) by blast
qed

text \<open>The same at a hash that pads or cuts its input to 32 bytes.\<close>

theorem customHllUpdate_in_bounds_witness:
  "(\<forall>bs::byte list. length (take 32 (bs @ replicate 32 (0::byte))) = 32) \<and>
   (\<exists>est v. customHllUpdate_all (\<lambda>bs. take 32 (bs @ replicate 32 0))
               (new_HyperLogLog HLL_REGISTERS) [EStr ''a'', EStr ''b''] = Inr est
     \<and> hashTo64BigInt (take 32 (element_bytes (EStr ''c'') @ replicate 32 0)) = Inr v
     \<and> length (registers est) = HLL_REGISTERS
     \<and> registerIndex est v < length (registers est)
     \<and> 1 \<le> rho est v \<and> rho est v \<le> 54
     \<and> (\<forall>x \<in> set (registers est). \<exists>n. x = Num n \<and> 0 \<le> n \<and> n < 2 ^ 6))"
proof -
  have h: "length (take 32 (bs @ replicate 32 (0::byte))) = 32" for bs :: "byte list"
    by simp
  show ?thesis
    using customHllUpdate_in_bounds [where blake = "\<lambda>bs. take 32 (bs @ replicate 32 0)"
        and es = "[EStr ''a'', EStr ''b'']" and e = "EStr ''c''", OF h] h
    by simp
qed

text \<open>
  The rank as the specification words it (least-significant set bit of the remainder)
  differs from the rank the code computes. For the configured estimator and a digest
  whose 64-bit value is 1024, the index is 0 and the remainder is 1: the code stores rank
  54 in register 0, the specification's wording gives rank 1.
\<close>

theorem customHllUpdate_lsb_rank_counterexample:
  "map_sum id (\<lambda>h. arr_get (registers h) 0)
     (customHllUpdate_digest (new_HyperLogLog 1024) ([0, 0, 0, 0, 0, 0, 4, 0] @ replicate 24 0))
     = Inr (Num 54) \<and>
   map_sum id (\<lambda>h. arr_get (registers h) 0)
     (spec_add_digest (new_HyperLogLog 1024) ([0, 0, 0, 0, 0, 0, 4, 0] @ replicate 24 0))
     = Inr (Num 1)"
  by code_simp

section \<open>Signature verification and the ingest handler\<close>

lemma verifySignature_true_iff:
  "fst (verifySignature L msg sg pk) \<longleftrightarrow>
     (\<exists>sd pd sb pb.
        bech32_decode L sg 999 = Inr sd \<and> bech32_decode L pk 999 = Inr pd \<and>
        bech32_fromWords L (snd sd) = Inr sb \<and> bech32_fromWords L (snd pd) = Inr pb \<and>
        ed25519_verify L sb (utf8ToBytes msg) pb = Inr True)"
proof (cases "bech32_decode L sg 999")
  case (Inl e)
  then show ?thesis by (simp add: verifySignature_def verifySignature_try_def)
next
  case sd: (Inr sd)
  show ?thesis
  proof (cases "bech32_decode L pk 999")
    case (Inl e)
    then show ?thesis using sd by (simp add: verifySignature_def verifySignature_try_def)
  next
    case pd: (Inr pd)
    show ?thesis
    proof (cases "bech32_fromWords L (snd sd)")
      case (Inl e)
      then show ?thesis using sd pd by (simp add: verifySignature_def verifySignature_try_def)
    next
      case sb: (Inr sb)
      show ?thesis
      proof (cases "bech32_fromWords L (snd pd)")
        case (Inl e)
        then show ?thesis using sd pd sb by (simp add: verifySignature_def verifySignature_try_def)
      next
        case pb: (Inr pb)
        show ?thesis
          using sd pd sb pb
          by (cases "ed25519_verify L sb (utf8ToBytes msg) pb")
             (simp_all add: verifySignature_def verifySignature_try_def)
      qed
    qed
  qed
qed

lemma verifySignature_console:
  "verifySignature L msg sg pk =
     (case verifySignature_try L msg sg pk of
        Inl err \<Rightarrow> (False, [LogError ''Signature verification error:'' err])
      | Inr ok \<Rightarrow> (ok, []))"
  by (simp add: verifySignature_def)

lemma verifySignature_ok_quiet:
  "fst (verifySignature L msg sg pk) \<Longrightarrow> snd (verifySignature L msg sg pk) = []"
  by (simp add: verifySignature_def split: sum.splits)

lemma ingest_accept_usedNonces:
  "usedNonces (after (ingest_accept L now d st pk n out)) = (usedNonces st)(n \<mapsto> now)"
  by (simp add: ingest_accept_def internal_error_def Let_def split: sum.splits)

lemma ingest_accept_response:
  "(\<exists>nu cnt. response (ingest_accept L now d st pk n out) = SuccessResponse d nu cnt) \<or>
   response (ingest_accept L now d st pk n out) = ErrorResponse 500 ''internal''"
  by (auto simp add: ingest_accept_def internal_error_def Let_def split: sum.splits)

lemma ingest_accept_steps:
  "take 5 (steps (ingest_accept L now d st pk n out)) =
     [CheckFields, CheckTimestamp, CheckNonce, VerifySignature, MarkNonce]"
  by (simp add: ingest_accept_def internal_error_def Let_def split: sum.splits)

lemma ingest_cases:
  "ingest L now d st req =
     (case required_fields req of
        None \<Rightarrow>
          \<lparr>response = ErrorResponse 400 ''Missing required fields'', after = st,
           console = [], steps = [CheckFields]\<rparr>
      | Some (pk, ts, n, sg) \<Rightarrow>
          if stale L now ts then
            \<lparr>response = ErrorResponse 400 ''Timestamp too old or in future'', after = st,
             console = [], steps = [CheckFields, CheckTimestamp]\<rparr>
          else if usedNonces st n \<noteq> None then
            \<lparr>response = ErrorResponse 400 ''Nonce already used (replay attack?)'', after = st,
             console = [], steps = [CheckFields, CheckTimestamp, CheckNonce]\<rparr>
          else if \<not> fst (verifySignature L (toString L ts @ '':'' @ n) sg pk) then
            \<lparr>response = ErrorResponse 401 ''Invalid signature'', after = st,
             console = snd (verifySignature L (toString L ts @ '':'' @ n) sg pk),
             steps = [CheckFields, CheckTimestamp, CheckNonce, VerifySignature]\<rparr>
          else ingest_accept L now d st pk n [])"
  by (auto simp add: ingest_def Let_def split_beta verifySignature_ok_quiet
      split: option.splits)

text \<open>
  C3. For every request the handler runs its checks in one order: required fields,
  then timestamp freshness (\<open>|now - claimedTimestamp| > window\<close> rejects), then the
  nonce, then the signature. The first failing check answers at once, with status 400
  for the first three and 401 for the signature, and the handler ends there. For the
  first three the server state is as it was before the request and nothing was written
  to the console, where the signature verification reports a key or signature that it
  cannot decode: neither the verification nor an update has run. After a failed
  signature check the state is as it was too, and the console holds what the
  verification wrote. Only a request that passes all four checks reaches the step that
  marks the nonce; the nonce is then in the map with the time of the request, and the
  answer is a success or the status 500 of an internal error.
\<close>

theorem ingest_validation_order:
  "(case required_fields req of
      None \<Rightarrow>
        response (ingest L now d st req) = ErrorResponse 400 ''Missing required fields'' \<and>
        after (ingest L now d st req) = st \<and>
        console (ingest L now d st req) = [] \<and>
        steps (ingest L now d st req) = [CheckFields]
    | Some (pk, ts, n, sg) \<Rightarrow>
        if stale L now ts then
          response (ingest L now d st req) = ErrorResponse 400 ''Timestamp too old or in future'' \<and>
          after (ingest L now d st req) = st \<and>
          console (ingest L now d st req) = [] \<and>
          steps (ingest L now d st req) = [CheckFields, CheckTimestamp]
        else if usedNonces st n \<noteq> None then
          response (ingest L now d st req)
            = ErrorResponse 400 ''Nonce already used (replay attack?)'' \<and>
          after (ingest L now d st req) = st \<and>
          console (ingest L now d st req) = [] \<and>
          steps (ingest L now d st req) = [CheckFields, CheckTimestamp, CheckNonce]
        else if \<not> fst (verifySignature L (toString L ts @ '':'' @ n) sg pk) then
          response (ingest L now d st req) = ErrorResponse 401 ''Invalid signature'' \<and>
          after (ingest L now d st req) = st \<and>
          console (ingest L now d st req)
            = snd (verifySignature L (toString L ts @ '':'' @ n) sg pk) \<and>
          steps (ingest L now d st req) = [CheckFields, CheckTimestamp, CheckNonce, VerifySignature]
        else
          take 5 (steps (ingest L now d st req))
            = [CheckFields, CheckTimestamp, CheckNonce, VerifySignature, MarkNonce] \<and>
          usedNonces (after (ingest L now d st req)) = (usedNonces st)(n \<mapsto> now) \<and>
          ((\<exists>nu cnt. response (ingest L now d st req) = SuccessResponse d nu cnt) \<or>
           response (ingest L now d st req) = ErrorResponse 500 ''internal''))"
  using ingest_accept_response [of L now d st _ _ "[]"]
  by (simp add: ingest_cases ingest_accept_steps ingest_accept_usedNonces split: option.splits)

lemma ingest_rejected_after:
  assumes "response (ingest L now d st req) = ErrorResponse code msg" "code = 400 \<or> code = 401"
  shows "after (ingest L now d st req) = st"
proof (cases "required_fields req")
  case None
  then show ?thesis by (simp add: ingest_cases)
next
  case (Some f)
  obtain pk ts n sg where f: "f = (pk, ts, n, sg)" by (cases f) auto
  show ?thesis
    using assms ingest_accept_response [of L now d st pk n "[]"]
    by (auto simp: ingest_cases Some f split: if_splits)
qed





text \<open>
  C9. A request answered with status 400 or 401 leaves the whole server state as it was:
  the nonce map, the global estimator and filter, the daily files, the two snapshot
  files and the queue of aggregation tasks. In particular the nonce of a request whose
  signature failed is not recorded: a later request with the same nonce, a fresh
  timestamp and a valid signature passes all four checks, is handled from the state
  before the failed request, and records the nonce.
\<close>

theorem ingest_rejected_state_unchanged:
  "(response (ingest L now d st req) = ErrorResponse 400 msg \<or>
    response (ingest L now d st req) = ErrorResponse 401 msg
    \<longrightarrow> after (ingest L now d st req) = st) \<and>
   (required_fields req = Some (pk, ts, n, sg) \<and>
    response (ingest L now d st req) = ErrorResponse 401 msg \<and>
    required_fields req' = Some (pk', ts', n, sg') \<and> \<not> stale L now' ts' \<and>
    fst (verifySignature L (toString L ts' @ '':'' @ n) sg' pk')
    \<longrightarrow> ingest L now' d' (after (ingest L now d st req)) req'
          = ingest_accept L now' d' st pk' n [] \<and>
        usedNonces (after (ingest L now' d' (after (ingest L now d st req)) req')) n = Some now' \<and>
        ((\<exists>nu cnt. response (ingest L now' d' (after (ingest L now d st req)) req')
                     = SuccessResponse d' nu cnt) \<or>
         response (ingest L now' d' (after (ingest L now d st req)) req')
           = ErrorResponse 500 ''internal''))"
proof (intro conjI impI)
  assume "response (ingest L now d st req) = ErrorResponse 400 msg \<or>
    response (ingest L now d st req) = ErrorResponse 401 msg"
  then show "after (ingest L now d st req) = st"
    by (auto intro: ingest_rejected_after)
next
  assume a: "required_fields req = Some (pk, ts, n, sg) \<and>
    response (ingest L now d st req) = ErrorResponse 401 msg \<and>
    required_fields req' = Some (pk', ts', n, sg') \<and> \<not> stale L now' ts' \<and>
    fst (verifySignature L (toString L ts' @ '':'' @ n) sg' pk')"
  then have same: "after (ingest L now d st req) = st"
    by (auto intro: ingest_rejected_after)
  have free: "usedNonces st n = None"
    using a ingest_accept_response [of L now d st pk n "[]"]
    by (auto simp: ingest_cases split: if_splits)
  show accept: "ingest L now' d' (after (ingest L now d st req)) req'
          = ingest_accept L now' d' st pk' n []"
  proof -
    have "ingest L now' d' st req' = ingest_accept L now' d' st pk' n []"
      using a free by (simp add: ingest_cases)
    then show ?thesis by (simp only: same)
  qed
  show "usedNonces (after (ingest L now' d' (after (ingest L now d st req)) req')) n = Some now'"
    by (simp only: accept ingest_accept_usedNonces fun_upd_same)
  show "(\<exists>nu cnt. response (ingest L now' d' (after (ingest L now d st req)) req')
                     = SuccessResponse d' nu cnt) \<or>
         response (ingest L now' d' (after (ingest L now d st req)) req')
           = ErrorResponse 500 ''internal''"
    using ingest_accept_response [of L now' d' st pk' n "[]"] by (simp only: accept)
qed

text \<open>A request with a wrong signature, then a correctly signed one with the same nonce.\<close>

theorem ingest_rejected_state_unchanged_witness:
  "response (ingest test_libs 1000 ''2024-01-01'' test_state (bad_request 1000 ''abc''))
     = ErrorResponse 401 ''Invalid signature'' \<and>
   after (ingest test_libs 1000 ''2024-01-01'' test_state (bad_request 1000 ''abc'')) = test_state \<and>
   usedNonces (after (ingest test_libs 2000 ''2024-01-01''
        (after (ingest test_libs 1000 ''2024-01-01'' test_state (bad_request 1000 ''abc'')))
        (test_request 2000 ''abc''))) ''abc'' = Some 2000"
proof -
  let ?O = "ingest test_libs 1000 ''2024-01-01'' test_state (bad_request 1000 ''abc'')"
  have r: "response ?O = ErrorResponse 401 ''Invalid signature''"
    by code_simp
  have f1: "required_fields (bad_request 1000 ''abc'') = Some (''k1abc'', TsNum 1000, ''abc'', ''s1abd'')"
    by code_simp
  have f2: "required_fields (test_request 2000 ''abc'') = Some (''k1abc'', TsNum 2000, ''abc'', ''s1abc'')"
    by code_simp
  have fresh: "\<not> stale test_libs 2000 (TsNum 2000)"
    by code_simp
  have ok: "fst (verifySignature test_libs (toString test_libs (TsNum 2000) @ '':'' @ ''abc'') ''s1abc'' ''k1abc'')"
    by code_simp
  note inst = ingest_rejected_state_unchanged [where L = test_libs and now = 1000
      and d = "''2024-01-01''" and st = test_state and req = "bad_request 1000 ''abc''"
      and msg = "''Invalid signature''" and pk = "''k1abc''" and ts = "TsNum 1000" and n = "''abc''"
      and sg = "''s1abd''" and req' = "test_request 2000 ''abc''" and pk' = "''k1abc''"
      and ts' = "TsNum 2000" and sg' = "''s1abc''" and now' = 2000
      and d' = "''2024-01-01''"]
  show ?thesis
    using inst r f1 f2 fresh ok by blast
qed

text \<open>The four rejections at the test instance, each with the whole outcome: a missing
  nonce, a stale timestamp, a nonce that is in the map, and a signature that cannot be
  decoded. The first three carry the same signature and leave the console empty; only
  the fourth writes the error of the decoding.\<close>

theorem ingest_validation_order_witness:
  "ingest test_libs 1000 ''2024-01-01'' test_state
       ((bad_request 1000 ''abc'')\<lparr>nonce := None, signature := Some ''zzz''\<rparr>)
     = \<lparr>response = ErrorResponse 400 ''Missing required fields'', after = test_state,
        console = [], steps = [CheckFields]\<rparr> \<and>
   ingest test_libs 100000 ''2024-01-01'' test_state
       ((bad_request 1000 ''abc'')\<lparr>signature := Some ''zzz''\<rparr>)
     = \<lparr>response = ErrorResponse 400 ''Timestamp too old or in future'', after = test_state,
        console = [], steps = [CheckFields, CheckTimestamp]\<rparr> \<and>
   ingest test_libs 1000 ''2024-01-01'' (test_state\<lparr>usedNonces := [''abc'' \<mapsto> 900]\<rparr>)
       ((bad_request 1000 ''abc'')\<lparr>signature := Some ''zzz''\<rparr>)
     = \<lparr>response = ErrorResponse 400 ''Nonce already used (replay attack?)'',
        after = test_state\<lparr>usedNonces := [''abc'' \<mapsto> 900]\<rparr>,
        console = [], steps = [CheckFields, CheckTimestamp, CheckNonce]\<rparr> \<and>
   ingest test_libs 1000 ''2024-01-01'' test_state
       ((bad_request 1000 ''abc'')\<lparr>signature := Some ''zzz''\<rparr>)
     = \<lparr>response = ErrorResponse 401 ''Invalid signature'', after = test_state,
        console = [LogError ''Signature verification error:'' (LibError ''bech32'')],
        steps = [CheckFields, CheckTimestamp, CheckNonce, VerifySignature]\<rparr>"
proof -
  let ?r = "(bad_request 1000 ''abc'')\<lparr>signature := Some ''zzz''\<rparr>"
  let ?miss = "(bad_request 1000 ''abc'')\<lparr>nonce := None, signature := Some ''zzz''\<rparr>"
  let ?used = "test_state\<lparr>usedNonces := [''abc'' \<mapsto> 900]\<rparr>"
  have f0: "required_fields ?miss = None"
    by (simp add: required_fields_def bad_request_def)
  have f1: "required_fields ?r = Some (''k1abc'', TsNum 1000, ''abc'', ''zzz'')"
    by (simp add: required_fields_def bad_request_def)
  have old: "stale test_libs 100000 (TsNum 1000)" and fresh: "\<not> stale test_libs 1000 (TsNum 1000)"
    by code_simp+
  have unused: "usedNonces test_state ''abc'' = None"
    by (simp add: test_state_def)
  have bad: "verifySignature test_libs (toString test_libs (TsNum 1000) @ '':'' @ ''abc'')
      ''zzz'' ''k1abc'' = (False, [LogError ''Signature verification error:'' (LibError ''bech32'')])"
    by code_simp
  have a: "ingest test_libs 1000 ''2024-01-01'' test_state ?miss
     = \<lparr>response = ErrorResponse 400 ''Missing required fields'', after = test_state,
        console = [], steps = [CheckFields]\<rparr>"
    using ingest_validation_order [where req = ?miss and L = test_libs and now = 1000
        and d = "''2024-01-01''" and st = test_state] f0
    by (intro outcome.equality) simp_all
  have b: "ingest test_libs 100000 ''2024-01-01'' test_state ?r
     = \<lparr>response = ErrorResponse 400 ''Timestamp too old or in future'', after = test_state,
        console = [], steps = [CheckFields, CheckTimestamp]\<rparr>"
    using ingest_validation_order [where req = ?r and L = test_libs and now = 100000
        and d = "''2024-01-01''" and st = test_state] f1 old
    by (intro outcome.equality) simp_all
  have c: "ingest test_libs 1000 ''2024-01-01'' ?used ?r
     = \<lparr>response = ErrorResponse 400 ''Nonce already used (replay attack?)'', after = ?used,
        console = [], steps = [CheckFields, CheckTimestamp, CheckNonce]\<rparr>"
    using ingest_validation_order [where req = ?r and L = test_libs and now = 1000
        and d = "''2024-01-01''" and st = ?used] f1 fresh
    by (intro outcome.equality) simp_all
  have e: "ingest test_libs 1000 ''2024-01-01'' test_state ?r
     = \<lparr>response = ErrorResponse 401 ''Invalid signature'', after = test_state,
        console = [LogError ''Signature verification error:'' (LibError ''bech32'')],
        steps = [CheckFields, CheckTimestamp, CheckNonce, VerifySignature]\<rparr>"
    using ingest_validation_order [where req = ?r and L = test_libs and now = 1000
        and d = "''2024-01-01''" and st = test_state] f1 fresh unused bad
    by (intro outcome.equality) simp_all
  show ?thesis
    using a b c e by simp
qed

lemma customHllUpdate_ok:
  "8 \<le> length (blake (element_bytes e)) \<Longrightarrow> \<exists>h'. customHllUpdate blake est e = Inr h'"
  by (simp add: customHllUpdate_def customHllUpdate_digest_def hashTo64BigInt_value)

lemma ingest_accept_success:
  assumes "response (ingest_accept L now d st pk n out) = SuccessResponse day isNew cnt"
  shows "\<exists>dailyData h' nu'.
     getDailyData (daily_files st) d = Inr dailyData \<and>
     (let userHash = bytesToHex (blake3 L (utf8ToBytes pk));
          st' = after (ingest_accept L now d st pk n out)
      in day = d \<and>
         isNew = (\<not> bloom_has L (allBloom st) userHash) \<and>
         allBloom st' = bloom_add L (allBloom st) userHash \<and>
         customHllUpdate (blake3 L) (allHLL st) (EStr userHash) = Inr (allHLL st') \<and>
         customHllUpdate (blake3 L) (hll dailyData) (EStr userHash) = Inr h' \<and>
         (if isNew
          then customHllUpdate (blake3 L) (newUsersHll dailyData) (EStr userHash) = Inr nu'
          else nu' = newUsersHll dailyData) \<and>
         map_of (daily_files st') (d @ ''.hll.json'') = Some (DailyJson h' (Some nu')) \<and>
         cnt = hll_count L h')"
  using assms
  by (auto simp add: ingest_accept_def internal_error_def Let_def saveDailyData_def update_conv'
      split: sum.splits if_splits)

lemma ingest_accept_succeeds:
  assumes "getDailyData (daily_files st) d = Inr dailyData"
    and "\<And>bs. 8 \<le> length (blake3 L bs)"
  shows "\<exists>isNew cnt. response (ingest_accept L now d st pk n out) = SuccessResponse d isNew cnt"
proof -
  let ?U = "EStr (bytesToHex (blake3 L (utf8ToBytes pk)))"
  have ok: "\<exists>h'. customHllUpdate (blake3 L) est ?U = Inr h'" for est
    by (rule customHllUpdate_ok) (rule assms(2))
  obtain a where a: "customHllUpdate (blake3 L) (allHLL st) ?U = Inr a" using ok by blast
  obtain b where b: "customHllUpdate (blake3 L) (hll dailyData) ?U = Inr b" using ok by blast
  obtain c where c: "customHllUpdate (blake3 L) (newUsersHll dailyData) ?U = Inr c" using ok by blast
  show ?thesis
    using assms(1) a b c by (auto simp add: ingest_accept_def Let_def)
qed


lemma ingest_success_accept:
  assumes "response (ingest L now d st req) = SuccessResponse day isNew cnt"
  shows "\<exists>pk ts n sg. required_fields req = Some (pk, ts, n, sg) \<and>
           ingest L now d st req = ingest_accept L now d st pk n []"
proof (cases "required_fields req")
  case None
  with assms show ?thesis by (simp add: ingest_cases)
next
  case (Some f)
  obtain pk ts n sg where f: "f = (pk, ts, n, sg)" by (cases f) auto
  show ?thesis
    using assms by (auto simp: ingest_cases Some f split: if_splits)
qed

lemma customHllUpdate_Inr_length:
  assumes "customHllUpdate blake est e = Inr h"
  shows "8 \<le> length (blake (element_bytes e))"
proof (rule ccontr)
  assume "\<not> 8 \<le> length (blake (element_bytes e))"
  then have "length (blake (element_bytes e)) < 8" by simp
  then have "hashTo64BigInt (blake (element_bytes e)) = Inl TypeError"
    by (simp add: hashTo64BigInt_def hashTo64_loop_short)
  with assms show False
    by (simp add: customHllUpdate_def customHllUpdate_digest_def)
qed

lemma customHllUpdate_add_digest:
  assumes "customHllUpdate blake est e = Inr h" and "nbBytesPerHash est \<le> 64"
  shows "h = add_digest est (blake (element_bytes e))"
  using assms customHllUpdate_Inr_length [OF assms(1)]
    customHllUpdate_digest_value [of "blake (element_bytes e)" est]
  by (simp add: customHllUpdate_def add_digest_def Let_def)

lemma getDailyData_file:
  "getDailyData files d = Inr dailyData \<longleftrightarrow>
     (case map_of files (d @ ''.hll.json'') of
        None \<Rightarrow> dailyData = \<lparr>hll = new_HyperLogLog HLL_REGISTERS,
                              newUsersHll = new_HyperLogLog HLL_REGISTERS\<rparr>
      | Some Corrupt \<Rightarrow> False
      | Some (DailyJson h onu) \<Rightarrow>
          dailyData = \<lparr>hll = h,
            newUsersHll = (case onu of None \<Rightarrow> new_HyperLogLog HLL_REGISTERS | Some x \<Rightarrow> x)\<rparr>)"
  by (auto simp add: getDailyData_def split: option.splits daily_file.splits)



text \<open>
  C8. Let the global estimator and the estimators in the day's file have at most 64
  index bits (the configured count is 10). Whenever the handler answers with a
  success, the day's file was absent, and then both of the day's estimators start new,
  or it parsed, and then they start as the file has them, the new-users estimator being
  new when the file has none. With the identifier the hex digest of the public key and
  \<open>digest\<close> the digest of the identifier, of at least eight bytes: the \<open>newUser\<close> field
  of the answer is the negated membership test on the global filter as it was before
  the identifier was added; afterwards the global filter is the old one with the
  identifier added; the global estimator is the old one with the register of the
  digest raised to the rank of the digest; the day's file holds the day's estimator
  with the same register raised, and the day's new-users estimator with it raised
  exactly when the test said new, and unchanged otherwise; the count in the answer is
  the estimate of the day's estimator after the update.
\<close>

theorem ingest_accepted_updates:
  assumes "response (ingest L now d st req) = SuccessResponse day isNew cnt"
    and "nbBytesPerHash (allHLL st) \<le> 64"
    and "\<forall>h onu. map_of (daily_files st) (d @ ''.hll.json'') = Some (DailyJson h onu) \<longrightarrow>
           nbBytesPerHash h \<le> 64 \<and> (\<forall>x. onu = Some x \<longrightarrow> nbBytesPerHash x \<le> 64)"
  shows "\<exists>pk ts n sg dayHll dayNew.
     required_fields req = Some (pk, ts, n, sg) \<and>
     (case map_of (daily_files st) (d @ ''.hll.json'') of
        None \<Rightarrow> dayHll = new_HyperLogLog HLL_REGISTERS \<and> dayNew = new_HyperLogLog HLL_REGISTERS
      | Some Corrupt \<Rightarrow> False
      | Some (DailyJson h onu) \<Rightarrow>
          dayHll = h \<and>
          dayNew = (case onu of None \<Rightarrow> new_HyperLogLog HLL_REGISTERS | Some x \<Rightarrow> x)) \<and>
     (let userHash = bytesToHex (blake3 L (utf8ToBytes pk));
          digest = blake3 L (utf8ToBytes userHash);
          st' = after (ingest L now d st req)
      in 8 \<le> length digest \<and>
         day = d \<and>
         isNew = (\<not> bloom_has L (allBloom st) userHash) \<and>
         allBloom st' = bloom_add L (allBloom st) userHash \<and>
         allHLL st' = add_digest (allHLL st) digest \<and>
         map_of (daily_files st') (d @ ''.hll.json'')
           = Some (DailyJson (add_digest dayHll digest)
                     (Some (if isNew then add_digest dayNew digest else dayNew))) \<and>
         cnt = hll_count L (add_digest dayHll digest))"
proof -
  obtain pk ts n sg where f: "required_fields req = Some (pk, ts, n, sg)"
    and acc: "ingest L now d st req = ingest_accept L now d st pk n []"
    using ingest_success_accept [OF assms(1)] by blast
  define userHash where "userHash = bytesToHex (blake3 L (utf8ToBytes pk))"
  define digest where "digest = blake3 L (utf8ToBytes userHash)"
  define st' where "st' = after (ingest L now d st req)"
  have "response (ingest_accept L now d st pk n []) = SuccessResponse day isNew cnt"
    using assms(1) by (simp only: acc)
  from ingest_accept_success [OF this]
  obtain dailyData h' nu' where
    daily: "getDailyData (daily_files st) d = Inr dailyData" and
    day: "day = d" and
    new: "isNew = (\<not> bloom_has L (allBloom st) userHash)" and
    bloom: "allBloom st' = bloom_add L (allBloom st) userHash" and
    u1: "customHllUpdate (blake3 L) (allHLL st) (EStr userHash) = Inr (allHLL st')" and
    u2: "customHllUpdate (blake3 L) (hll dailyData) (EStr userHash) = Inr h'" and
    u3: "if isNew
         then customHllUpdate (blake3 L) (newUsersHll dailyData) (EStr userHash) = Inr nu'
         else nu' = newUsersHll dailyData" and
    saved: "map_of (daily_files st') (d @ ''.hll.json'') = Some (DailyJson h' (Some nu'))" and
    cnt: "cnt = hll_count L h'"
    unfolding Let_def userHash_def st'_def acc by blast
  have len: "8 \<le> length digest"
    using customHllUpdate_Inr_length [OF u1] by (simp add: digest_def)
  have ten: "nbBytesPerHash (new_HyperLogLog HLL_REGISTERS) \<le> 64"
    by (simp add: new_HyperLogLog_def HLL_REGISTERS_def log2_1024)
  have src: "case map_of (daily_files st) (d @ ''.hll.json'') of
        None \<Rightarrow> hll dailyData = new_HyperLogLog HLL_REGISTERS \<and>
                newUsersHll dailyData = new_HyperLogLog HLL_REGISTERS
      | Some Corrupt \<Rightarrow> False
      | Some (DailyJson h onu) \<Rightarrow>
          hll dailyData = h \<and>
          newUsersHll dailyData
            = (case onu of None \<Rightarrow> new_HyperLogLog HLL_REGISTERS | Some x \<Rightarrow> x)"
    using daily by (auto simp add: getDailyData_file split: option.splits daily_file.splits)
  have bits: "nbBytesPerHash (hll dailyData) \<le> 64" "nbBytesPerHash (newUsersHll dailyData) \<le> 64"
    using src assms(3) ten
    by (auto split: option.splits daily_file.splits)
  have a1: "allHLL st' = add_digest (allHLL st) digest"
    using customHllUpdate_add_digest [OF u1] assms(2) by (simp add: digest_def)
  have a2: "h' = add_digest (hll dailyData) digest"
    using customHllUpdate_add_digest [OF u2] bits(1) by (simp add: digest_def)
  have a3: "nu' = (if isNew then add_digest (newUsersHll dailyData) digest
                   else newUsersHll dailyData)"
  proof (cases isNew)
    case True
    then have "customHllUpdate (blake3 L) (newUsersHll dailyData) (EStr userHash) = Inr nu'"
      using u3 by simp
    from customHllUpdate_add_digest [OF this] bits(2) True show ?thesis
      by (simp add: digest_def)
  next
    case False
    then show ?thesis using u3 by simp
  qed
  show ?thesis
    apply (rule exI [of _ pk], rule exI [of _ ts], rule exI [of _ n], rule exI [of _ sg])
    apply (rule exI [of _ "hll dailyData"], rule exI [of _ "newUsersHll dailyData"])
    unfolding Let_def
    apply (fold userHash_def)
    apply (fold digest_def)
    apply (fold st'_def)
    using f src len day new bloom a1 saved cnt a2 a3
    apply simp
    done
qed

text \<open>A first request on a day that has a file: it is accepted and reported as a new
  user; register 562 of the global estimator goes from 0 to 3; the day's estimator
  keeps its register 0 and has register 562 set, and the new-users estimator, absent
  from the file, is written with register 562 set.\<close>

theorem ingest_accepted_updates_witness:
  "(\<exists>cnt. response (ingest test_libs 1000 ''2024-01-03'' test_dir_state (test_request 1000 ''abc''))
       = SuccessResponse ''2024-01-03'' True cnt) \<and>
   allBloom (after (ingest test_libs 1000 ''2024-01-03'' test_dir_state (test_request 1000 ''abc'')))
     = [bytesToHex (blake3 test_libs (utf8ToBytes ''k1abc''))] \<and>
   arr_get (registers (allHLL test_dir_state)) 562 = Num 0 \<and>
   arr_get (registers (allHLL (after
       (ingest test_libs 1000 ''2024-01-03'' test_dir_state (test_request 1000 ''abc''))))) 562
     = Num 3 \<and>
   (\<exists>h nu. map_of (daily_files (after
         (ingest test_libs 1000 ''2024-01-03'' test_dir_state (test_request 1000 ''abc''))))
         ''2024-01-03.hll.json'' = Some (DailyJson h (Some nu)) \<and>
       arr_get (registers h) 0 = Num 3 \<and> arr_get (registers h) 562 = Num 3 \<and>
       arr_get (registers nu) 0 = Num 0 \<and> arr_get (registers nu) 562 = Num 3)"
proof -
  let ?O = "ingest test_libs 1000 ''2024-01-03'' test_dir_state (test_request 1000 ''abc'')"
  let ?D = "blake3 test_libs (utf8ToBytes (bytesToHex (blake3 test_libs (utf8ToBytes ''k1abc''))))"
  have f: "required_fields (test_request 1000 ''abc'')
      = Some (''k1abc'', TsNum 1000, ''abc'', ''s1abc'')"
    by (simp add: required_fields_def test_request_def)
  have fresh: "\<not> stale test_libs 1000 (TsNum 1000)"
    by code_simp
  have st: "usedNonces test_dir_state ''abc'' = None" "allBloom test_dir_state = []"
    "allHLL test_dir_state = new_HyperLogLog HLL_REGISTERS" "daily_files test_dir_state = test_dir"
    by (simp_all add: test_dir_state_def test_state_def)
  have ok: "fst (verifySignature test_libs (toString test_libs (TsNum 1000) @ '':'' @ ''abc'')
      ''s1abc'' ''k1abc'')"
    by code_simp
  have acc: "?O = ingest_accept test_libs 1000 ''2024-01-03'' test_dir_state ''k1abc'' ''abc'' []"
    using f fresh st(1) ok by (simp add: ingest_cases)
  have day: "map_of test_dir (''2024-01-03'' @ ''.hll.json'') = Some (DailyJson test_hll None)"
    by (simp add: test_dir_def)
  have daily: "getDailyData (daily_files test_dir_state) ''2024-01-03''
      = Inr \<lparr>hll = test_hll, newUsersHll = new_HyperLogLog HLL_REGISTERS\<rparr>"
    using day by (simp add: getDailyData_def st)
  have len: "8 \<le> length (blake3 test_libs bs)" for bs
    by (simp add: test_libs_def)
  obtain isNew cnt where r: "response ?O = SuccessResponse ''2024-01-03'' isNew cnt"
    using ingest_accept_succeeds [OF daily len] unfolding acc by blast
  have b1: "nbBytesPerHash (allHLL test_dir_state) \<le> 64"
    by (simp add: st new_HyperLogLog_def HLL_REGISTERS_def log2_1024)
  have b2: "\<forall>h onu. map_of (daily_files test_dir_state) (''2024-01-03'' @ ''.hll.json'')
        = Some (DailyJson h onu) \<longrightarrow>
      nbBytesPerHash h \<le> 64 \<and> (\<forall>x. onu = Some x \<longrightarrow> nbBytesPerHash x \<le> 64)"
    using day by (simp add: st test_hll_def new_HyperLogLog_def HLL_REGISTERS_def log2_1024)
  have filter: "bloom_has test_libs [] x = False" "bloom_add test_libs [] x = [x]" for x
    by (simp_all add: test_libs_def)
  have e0: "arr_get (registers (new_HyperLogLog HLL_REGISTERS)) 562 = Num 0"
    by code_simp
  have e1: "arr_get (registers (add_digest (new_HyperLogLog HLL_REGISTERS) ?D)) 562 = Num 3"
    "arr_get (registers (add_digest (new_HyperLogLog HLL_REGISTERS) ?D)) 0 = Num 0"
    by code_simp+
  have e2: "arr_get (registers (add_digest test_hll ?D)) 0 = Num 3"
    "arr_get (registers (add_digest test_hll ?D)) 562 = Num 3"
    by code_simp+
  from ingest_accepted_updates [OF r b1 b2] f
  have "isNew = True"
    and "allBloom (after ?O) = [bytesToHex (blake3 test_libs (utf8ToBytes ''k1abc''))]"
    and "allHLL (after ?O) = add_digest (new_HyperLogLog HLL_REGISTERS) ?D"
    and "map_of (daily_files (after ?O)) ''2024-01-03.hll.json''
      = Some (DailyJson (add_digest test_hll ?D)
           (Some (add_digest (new_HyperLogLog HLL_REGISTERS) ?D)))"
    using day by (auto simp: Let_def st filter)
  then show ?thesis
    using r e0 e1 e2 by (simp add: st)
qed

section \<open>The replay guard\<close>




section \<open>Signature verification fails closed\<close>

text \<open>
  C5 (as amended). For every input \<^verbatim>\<open>verifySignature\<close> returns a boolean and never
  throws. It returns true only when both decodings and both conversions succeed and
  the signature library returns true. When any library call throws, as on an undecodable
  or wrong-length key or signature, it returns false and writes one line with
  \<^verbatim>\<open>console.error\<close>; when none throws it writes nothing. It neither reads nor changes
  the server state.
\<close>

theorem verifySignature_fails_closed:
  "(fst (verifySignature L msg sg pk) \<longleftrightarrow>
      (\<exists>sd pd sb pb.
         bech32_decode L sg 999 = Inr sd \<and> bech32_decode L pk 999 = Inr pd \<and>
         bech32_fromWords L (snd sd) = Inr sb \<and> bech32_fromWords L (snd pd) = Inr pb \<and>
         ed25519_verify L sb (utf8ToBytes msg) pb = Inr True)) \<and>
   (\<forall>err. verifySignature_try L msg sg pk = Inl err \<longrightarrow>
      verifySignature L msg sg pk = (False, [LogError ''Signature verification error:'' err])) \<and>
   (\<forall>ok. verifySignature_try L msg sg pk = Inr ok \<longrightarrow> verifySignature L msg sg pk = (ok, []))"
  using verifySignature_true_iff [of L msg sg pk]
  by (simp add: verifySignature_console)

text \<open>An undecodable signature, and a decodable one that does not verify.\<close>

theorem verifySignature_fails_closed_witness:
  "verifySignature_try test_libs ''1000:abc'' ''zzz'' ''k1abc'' = Inl (LibError ''bech32'') \<and>
   verifySignature test_libs ''1000:abc'' ''zzz'' ''k1abc''
     = (False, [LogError ''Signature verification error:'' (LibError ''bech32'')]) \<and>
   verifySignature_try test_libs ''1000:abc'' ''s1abd'' ''k1abc'' = Inr False \<and>
   verifySignature test_libs ''1000:abc'' ''s1abd'' ''k1abc'' = (False, [])"
proof -
  have t1: "verifySignature_try test_libs ''1000:abc'' ''zzz'' ''k1abc'' = Inl (LibError ''bech32'')"
    by code_simp
  have t2: "verifySignature_try test_libs ''1000:abc'' ''s1abd'' ''k1abc'' = Inr False"
    by code_simp
  show ?thesis
    using verifySignature_fails_closed [of test_libs "''1000:abc''" "''zzz''" "''k1abc''"]
      verifySignature_fails_closed [of test_libs "''1000:abc''" "''s1abd''" "''k1abc''"] t1 t2
    by blast
qed

text \<open>The call is not free of effects: on an undecodable signature it writes a line to
  the console.\<close>

theorem verifySignature_console_counterexample:
  "snd (verifySignature test_libs ''1000:abc'' ''zzz'' ''k1abc'')
     = [LogError ''Signature verification error:'' (LibError ''bech32'')]"
  by code_simp

section \<open>Merge, retention and the stats handler\<close>

lemma Math_max2_commute: "Math_max2 x y = Math_max2 y x"
  by (cases x; cases y) (simp_all add: max.commute)

lemma Math_max2_assoc: "Math_max2 (Math_max2 x y) z = Math_max2 x (Math_max2 y z)"
  by (cases x; cases y; cases z) (simp_all add: max.assoc)

lemma Math_max2_Num: "Math_max2 (Num a) (Num b) = Num (max a b)"
  by simp

lemma map2_commute:
  "length xs = length ys \<Longrightarrow> map2 Math_max2 xs ys = map2 Math_max2 ys xs"
  by (rule nth_equalityI) (simp_all add: Math_max2_commute)

lemma map2_assoc:
  "length xs = length ys \<Longrightarrow> length ys = length zs \<Longrightarrow>
   map2 Math_max2 (map2 Math_max2 xs ys) zs = map2 Math_max2 xs (map2 Math_max2 ys zs)"
  by (rule nth_equalityI) (simp_all add: Math_max2_assoc)

lemma map2_idem:
  "\<forall>x \<in> set xs. \<exists>n. x = Num n \<Longrightarrow> map2 Math_max2 xs xs = xs"
  by (rule nth_equalityI) (auto dest!: bspec [OF _ nth_mem])

lemma estimator_Num:
  "estimator m a \<Longrightarrow> x \<in> set (registers a) \<Longrightarrow> \<exists>n. x = Num n \<and> 0 \<le> n"
  unfolding estimator_def by blast

lemma estimator_merge:
  assumes "estimator m a" "estimator m b"
  shows "estimator m (a\<lparr>registers := map2 Math_max2 (registers a) (registers b)\<rparr>)"
proof -
  have "\<exists>n. x = Num n \<and> 0 \<le> n" if "x \<in> set (map2 Math_max2 (registers a) (registers b))" for x
  proof -
    from that obtain p q where "(p, q) \<in> set (zip (registers a) (registers b))"
      and x: "x = Math_max2 p q" by auto
    then have "p \<in> set (registers a)" "q \<in> set (registers b)"
      by (auto dest: set_zip_leftD set_zip_rightD)
    then obtain i j where "p = Num i" "0 \<le> i" "q = Num j" "0 \<le> j"
      using estimator_Num [OF assms(1)] estimator_Num [OF assms(2)] by blast
    then show ?thesis by (simp add: x)
  qed
  then show ?thesis
    using assms by (simp add: estimator_def)
qed

text \<open>
  C2. For estimators \<open>a\<close>, \<open>b\<close> and \<open>c\<close> with the same register count \<open>m\<close>, the merge
  of \<open>a\<close> and \<open>b\<close> succeeds and is again an estimator with register count \<open>m\<close>; each of
  its registers is the maximum of the two registers at the same index; merging \<open>b\<close> with
  \<open>a\<close> gives the same estimator; merging the merge of \<open>a\<close> and \<open>b\<close> with \<open>c\<close> gives the
  same as merging \<open>a\<close> with the merge of \<open>b\<close> and \<open>c\<close>; and merging \<open>a\<close> with itself
  gives \<open>a\<close>.
\<close>

theorem merge_pointwise_max_laws:
  assumes "estimator m a" and "estimator m b" and "estimator m c"
  shows "\<exists>ab. merge a b = Inr ab \<and> estimator m ab \<and>
           (\<forall>i < m. registers ab ! i = Math_max2 (registers a ! i) (registers b ! i)) \<and>
           (\<forall>i < m. \<exists>x y. registers a ! i = Num x \<and> registers b ! i = Num y \<and>
                             registers ab ! i = Num (max x y)) \<and>
           merge b a = Inr ab \<and>
           bind_err (merge a b) (\<lambda>ab. merge ab c) = bind_err (merge b c) (\<lambda>bc. merge a bc) \<and>
           (\<exists>abc. bind_err (merge a b) (\<lambda>ab. merge ab c) = Inr abc) \<and>
           merge a a = Inr a"
proof -
  have len: "length (registers a) = m" "length (registers b) = m" "length (registers c) = m"
    and bits: "nbBytesPerHash a = nbBytesPerHash b"
    using assms by (simp_all add: estimator_def)
  define ab where "ab = a\<lparr>registers := map2 Math_max2 (registers a) (registers b)\<rparr>"
  have ab: "merge a b = Inr ab"
    by (simp add: merge_def len ab_def)
  have est: "estimator m ab"
    unfolding ab_def by (rule estimator_merge) fact+
  have pw: "\<forall>i < m. registers ab ! i = Math_max2 (registers a ! i) (registers b ! i)"
    by (simp add: ab_def len)
  have nums: "\<forall>i < m. \<exists>x y. registers a ! i = Num x \<and> registers b ! i = Num y \<and>
                             registers ab ! i = Num (max x y)"
  proof (intro allI impI)
    fix i assume i: "i < m"
    then have "registers a ! i \<in> set (registers a)" "registers b ! i \<in> set (registers b)"
      using len by simp_all
    then obtain x y where "registers a ! i = Num x" "registers b ! i = Num y"
      using estimator_Num [OF assms(1)] estimator_Num [OF assms(2)] by blast
    then show "\<exists>x y. registers a ! i = Num x \<and> registers b ! i = Num y \<and>
                             registers ab ! i = Num (max x y)"
      using pw i by simp
  qed
  have comm: "merge b a = Inr ab"
    using map2_commute [of "registers a" "registers b"] bits
    by (simp add: merge_def len ab_def)
  have assoc: "bind_err (merge a b) (\<lambda>ab. merge ab c) = bind_err (merge b c) (\<lambda>bc. merge a bc)"
    using map2_assoc [of "registers a" "registers b" "registers c"]
    by (simp add: merge_def len)
  have total: "\<exists>abc. bind_err (merge a b) (\<lambda>ab. merge ab c) = Inr abc"
    by (simp add: merge_def len)
  have "\<forall>x \<in> set (registers a). \<exists>n. x = Num n"
    using estimator_Num [OF assms(1)] by blast
  then have "map2 Math_max2 (registers a) (registers a) = registers a"
    by (rule map2_idem)
  then have idem: "merge a a = Inr a"
    by (simp add: merge_def)
  show ?thesis
    using ab est pw nums comm assoc total idem by blast
qed


lemma log2_4: "log2 4 = 2"
  by code_simp

text \<open>Three estimators with four registers.\<close>

theorem merge_pointwise_max_laws_witness:
  "estimator 4 \<lparr>nbBytesPerHash = 2, registers = [Num 1, Num 0, Num 3, Num 0]\<rparr> \<and>
   estimator 4 \<lparr>nbBytesPerHash = 2, registers = [Num 0, Num 2, Num 1, Num 0]\<rparr> \<and>
   estimator 4 \<lparr>nbBytesPerHash = 2, registers = [Num 5, Num 0, Num 0, Num 0]\<rparr> \<and>
   merge \<lparr>nbBytesPerHash = 2, registers = [Num 1, Num 0, Num 3, Num 0]\<rparr>
         \<lparr>nbBytesPerHash = 2, registers = [Num 0, Num 2, Num 1, Num 0]\<rparr>
     = Inr \<lparr>nbBytesPerHash = 2, registers = [Num 1, Num 2, Num 3, Num 0]\<rparr> \<and>
   merge \<lparr>nbBytesPerHash = 2, registers = [Num 0, Num 2, Num 1, Num 0]\<rparr>
         \<lparr>nbBytesPerHash = 2, registers = [Num 1, Num 0, Num 3, Num 0]\<rparr>
     = Inr \<lparr>nbBytesPerHash = 2, registers = [Num 1, Num 2, Num 3, Num 0]\<rparr> \<and>
   merge \<lparr>nbBytesPerHash = 2, registers = [Num 1, Num 0, Num 3, Num 0]\<rparr>
         \<lparr>nbBytesPerHash = 2, registers = [Num 1, Num 0, Num 3, Num 0]\<rparr>
     = Inr \<lparr>nbBytesPerHash = 2, registers = [Num 1, Num 0, Num 3, Num 0]\<rparr>"
proof -
  let ?a = "\<lparr>nbBytesPerHash = 2, registers = [Num 1, Num 0, Num 3, Num 0]\<rparr>"
  let ?b = "\<lparr>nbBytesPerHash = 2, registers = [Num 0, Num 2, Num 1, Num 0]\<rparr>"
  let ?c = "\<lparr>nbBytesPerHash = 2, registers = [Num 5, Num 0, Num 0, Num 0]\<rparr>"
  have a: "estimator 4 ?a" and b: "estimator 4 ?b" and c: "estimator 4 ?c"
    by (simp_all add: estimator_def log2_4)
  have ab: "merge ?a ?b = Inr \<lparr>nbBytesPerHash = 2, registers = [Num 1, Num 2, Num 3, Num 0]\<rparr>"
    by code_simp
  from merge_pointwise_max_laws [OF a b c] ab
  have "merge ?b ?a = Inr \<lparr>nbBytesPerHash = 2, registers = [Num 1, Num 2, Num 3, Num 0]\<rparr>"
    and "merge ?a ?a = Inr ?a"
    by auto
  then show ?thesis using a b c ab by simp
qed

lemma retention_of_few:
  "length files < 2 \<Longrightarrow> retention_of L dir files = Inr \<lparr>d1 = None, d7 = None, d30 = None\<rparr>"
  by (simp add: retention_of_def)

lemma calcRetention_in_range:
  assumes "cohortIdx < length files" "returnIdx < length files"
    and "calcRetention L dir files cohortIdx returnIdx = Inr r"
  shows "\<exists>rec. r = Some rec"
proof -
  have "\<not> length files \<le> max cohortIdx returnIdx" using assms(1,2) by simp
  then show ?thesis
    using assms(3)
    by (cases "getDailyData dir (replace_first ''.hll.json'' [] (files ! cohortIdx))";
        cases "getDailyData dir (replace_first ''.hll.json'' [] (files ! returnIdx))";
        cases "hll_merge L (new_HyperLogLog HLL_REGISTERS)
                 (hll (projr (getDailyData dir (replace_first ''.hll.json'' [] (files ! cohortIdx)))))";
        cases "hll_merge L
                 (projr (hll_merge L (new_HyperLogLog HLL_REGISTERS)
                    (hll (projr (getDailyData dir
                       (replace_first ''.hll.json'' [] (files ! cohortIdx))))))) 
                 (hll (projr (getDailyData dir (replace_first ''.hll.json'' [] (files ! returnIdx)))))")
       (auto simp add: calcRetention_def Let_def)
qed

lemma bind_err_Inr:
  "bind_err x f = Inr y \<longleftrightarrow> (\<exists>z. x = Inr z \<and> f z = Inr y)"
  by (cases x) simp_all

lemma retention_of_many:
  assumes "2 \<le> length files" and "retention_of L dir files = Inr ret"
  shows "\<exists>a b c. ret = \<lparr>d1 = Some a, d7 = Some b, d30 = Some c\<rparr>"
proof -
  from assms obtain r1 r7 r30 where
    r1: "calcRetention L dir files 1 0 = Inr r1" and
    r7: "calcRetention L dir files (min 7 (length files - 1)) 0 = Inr r7" and
    r30: "calcRetention L dir files (min 30 (length files - 1)) 0 = Inr r30" and
    ret: "ret = \<lparr>d1 = r1, d7 = r7, d30 = r30\<rparr>"
    by (auto simp add: retention_of_def bind_err_Inr)
  have "\<exists>rec. r1 = Some rec"
    using assms(1) by (intro calcRetention_in_range [OF _ _ r1]) auto
  moreover have "\<exists>rec. r7 = Some rec"
    using assms(1) by (intro calcRetention_in_range [OF _ _ r7]) auto
  moreover have "\<exists>rec. r30 = Some rec"
    using assms(1) by (intro calcRetention_in_range [OF _ _ r30]) auto
  ultimately show ?thesis using ret by auto
qed

lemma stats_retention:
  assumes "stats L st = StatsOk body"
  shows "retention_of L (daily_files st) (list_files (daily_files st)) = Inr (retention body)"
  using assms
  by (auto simp add: stats_def Let_def bind_err_Inr split: sum.splits)

lemma test_hll_registers:
  "registers test_hll = Num 3 # replicate 1023 (Num 0)"
proof -
  have "replicate HLL_REGISTERS (Num 0) = Num 0 # replicate 1023 (Num 0)"
    by (simp add: HLL_REGISTERS_def flip: replicate_Suc)
  then show ?thesis
    by (simp add: test_hll_def new_HyperLogLog_def)
qed

lemma new_registers:
  "registers (new_HyperLogLog HLL_REGISTERS) = Num 0 # replicate 1023 (Num 0)"
  by (simp add: new_HyperLogLog_def HLL_REGISTERS_def flip: replicate_Suc)

lemma map2_zeros: "map2 Math_max2 (replicate n (Num 0)) (replicate n (Num 0)) = replicate n (Num 0)"
  by (rule map2_idem) simp

lemma merge_new_test_hll: "merge (new_HyperLogLog HLL_REGISTERS) test_hll = Inr test_hll"
proof -
  have "nbBytesPerHash test_hll = nbBytesPerHash (new_HyperLogLog HLL_REGISTERS)"
    by (simp add: test_hll_def)
  then have "(new_HyperLogLog HLL_REGISTERS)\<lparr>registers := registers test_hll\<rparr> = test_hll"
    by (simp add: test_hll_def)
  then show ?thesis
    by (simp add: merge_def test_hll_registers new_registers map2_zeros)
qed

lemma merge_test_hll_idem: "merge test_hll test_hll = Inr test_hll"
  by (simp add: merge_def test_hll_registers map2_zeros)

lemma receiver_new_test_hll:
  "hll_merge test_libs (new_HyperLogLog HLL_REGISTERS) test_hll
     = Inr (new_HyperLogLog HLL_REGISTERS)"
  by (simp add: test_libs_def receiver_after_merge_def merge_new_test_hll)

lemma receiver_test_hll:
  "hll_merge test_libs test_hll test_hll = Inr test_hll"
  by (simp add: test_libs_def receiver_after_merge_def merge_test_hll_idem)

lemma count_test_hll: "hll_count test_libs test_hll = 1"
  by (simp add: test_libs_def test_hll_registers)

lemma count_new: "hll_count test_libs (new_HyperLogLog HLL_REGISTERS) = 0"
  by (simp add: test_libs_def new_registers)

lemma list_files_test_dir:
  "list_files test_dir = [''2024-01-03.hll.json'', ''2024-01-02.hll.json'', ''2024-01-01.hll.json'']"
  by code_simp

lemma dateKeys_test_dir:
  "replace_first ''.hll.json'' [] ''2024-01-01.hll.json'' = ''2024-01-01''"
  "replace_first ''.hll.json'' [] ''2024-01-02.hll.json'' = ''2024-01-02''"
  "replace_first ''.hll.json'' [] ''2024-01-03.hll.json'' = ''2024-01-03''"
  by code_simp+

lemma getDailyData_test_dir:
  "getDailyData test_dir ''2024-01-01''
     = Inr \<lparr>hll = test_hll, newUsersHll = new_HyperLogLog HLL_REGISTERS\<rparr>"
  "getDailyData test_dir ''2024-01-02''
     = Inr \<lparr>hll = test_hll, newUsersHll = new_HyperLogLog HLL_REGISTERS\<rparr>"
  "getDailyData test_dir ''2024-01-03''
     = Inr \<lparr>hll = test_hll, newUsersHll = new_HyperLogLog HLL_REGISTERS\<rparr>"
  by (simp_all add: getDailyData_def test_dir_def)

lemma calcRetention_test_dir:
  "calcRetention test_libs test_dir
       [''2024-01-03.hll.json'', ''2024-01-02.hll.json'', ''2024-01-01.hll.json''] 1 0
     = Inr (Some \<lparr>cohortDate = ''2024-01-02'', returnDate = ''2024-01-03'', cohortSize = 1,
                   returnedUsers = 2, retentionRate = 200\<rparr>)"
  "calcRetention test_libs test_dir
       [''2024-01-03.hll.json'', ''2024-01-02.hll.json'', ''2024-01-01.hll.json''] 2 0
     = Inr (Some \<lparr>cohortDate = ''2024-01-01'', returnDate = ''2024-01-03'', cohortSize = 1,
                   returnedUsers = 2, retentionRate = 200\<rparr>)"
  by (simp_all add: calcRetention_def Let_def dateKeys_test_dir getDailyData_test_dir
      receiver_new_test_hll receiver_test_hll count_test_hll count_new Math_round_def)

lemma spec_retention_test_hll:
  "spec_retention (hll_count test_libs) test_hll test_hll = Inr (1, 100)"
  by (simp add: spec_retention_def Let_def merge_new_test_hll merge_test_hll_idem count_test_hll)

lemma stats_test_dir:
  "stats test_libs test_dir_state = StatsOk
     \<lparr>allTime = 0, wau = 1, mau = 1,
      recentDays = [\<lparr>date = ''2024-01-03'', dau = 1, newUsers = 0\<rparr>,
                    \<lparr>date = ''2024-01-02'', dau = 1, newUsers = 0\<rparr>,
                    \<lparr>date = ''2024-01-01'', dau = 1, newUsers = 0\<rparr>],
      retention =
        \<lparr>d1 = Some \<lparr>cohortDate = ''2024-01-02'', returnDate = ''2024-01-03'', cohortSize = 1,
                     returnedUsers = 2, retentionRate = 200\<rparr>,
         d7 = Some \<lparr>cohortDate = ''2024-01-01'', returnDate = ''2024-01-03'', cohortSize = 1,
                     returnedUsers = 2, retentionRate = 200\<rparr>,
         d30 = Some \<lparr>cohortDate = ''2024-01-01'', returnDate = ''2024-01-03'', cohortSize = 1,
                      returnedUsers = 2, retentionRate = 200\<rparr>\<rparr>\<rparr>"
proof -
  have st: "daily_files test_dir_state = test_dir"
    "allHLL test_dir_state = new_HyperLogLog HLL_REGISTERS"
    by (simp_all add: test_dir_state_def test_state_def)
  have window: "window_hll test_libs test_dir
      [''2024-01-03.hll.json'', ''2024-01-02.hll.json'', ''2024-01-01.hll.json''] k
      = Inr test_hll" if "3 \<le> k" for k
    using that
    by (simp add: window_hll_def min_def dateKeys_test_dir getDailyData_test_dir
        receiver_test_hll)
  have ret: "retention_of test_libs test_dir
      [''2024-01-03.hll.json'', ''2024-01-02.hll.json'', ''2024-01-01.hll.json'']
      = Inr \<lparr>d1 = Some \<lparr>cohortDate = ''2024-01-02'', returnDate = ''2024-01-03'', cohortSize = 1,
                     returnedUsers = 2, retentionRate = 200\<rparr>,
         d7 = Some \<lparr>cohortDate = ''2024-01-01'', returnDate = ''2024-01-03'', cohortSize = 1,
                     returnedUsers = 2, retentionRate = 200\<rparr>,
         d30 = Some \<lparr>cohortDate = ''2024-01-01'', returnDate = ''2024-01-03'', cohortSize = 1,
                      returnedUsers = 2, retentionRate = 200\<rparr>\<rparr>"
    using calcRetention_test_dir by (simp add: retention_of_def numeral_2_eq_2)
  show ?thesis
    by (simp add: stats_def Let_def st list_files_test_dir window ret count_test_hll count_new
        dateKeys_test_dir getDailyData_test_dir)
qed

lemma calcRetention_dates:
  assumes "calcRetention L dir files cohortIdx returnIdx = Inr (Some entry)"
  shows "cohortDate entry = replace_first ''.hll.json'' [] (files ! cohortIdx) \<and>
         returnDate entry = replace_first ''.hll.json'' [] (files ! returnIdx)"
  using assms
  by (auto simp add: calcRetention_def Let_def bind_err_Inr split: if_splits)

lemma retention_of_entries:
  assumes "2 \<le> length files" and "retention_of L dir files = Inr ret"
  shows "calcRetention L dir files 1 0 = Inr (d1 ret) \<and>
         calcRetention L dir files (min 7 (length files - 1)) 0 = Inr (d7 ret) \<and>
         calcRetention L dir files (min 30 (length files - 1)) 0 = Inr (d30 ret)"
  using assms by (auto simp add: retention_of_def bind_err_Inr)

text \<open>
  C7 (as amended). In the answer of the stats handler each of \<open>d1\<close>, \<open>d7\<close> and \<open>d30\<close> is
  a retention record or null. With fewer than two daily files all three are null. With
  \<open>n \<ge> 2\<close> daily files, sorted from the newest, all three are records: \<open>d1\<close> is what
  \<^verbatim>\<open>calcRetention\<close> returns for the cohort at index 1, and \<open>d7\<close> and \<open>d30\<close> do not wait
  for 8 and 31 files but take the cohort from the file at index \<open>min(7, n - 1)\<close> and
  \<open>min(30, n - 1)\<close>; the return day of all three is the newest file. In the second
  draft each entry is null when the list is shorter than its offset needs, fewer than
  2, 8 and 31 files, and is the rate of the files at index 1, 7 and 30 against the
  newest file otherwise.
\<close>

theorem retention_null_when_insufficient:
  "(stats L st = StatsOk body \<and> length (list_files (daily_files st)) < 2
      \<longrightarrow> retention body = \<lparr>d1 = None, d7 = None, d30 = None\<rparr>) \<and>
   (stats L st = StatsOk body \<and> 2 \<le> length (list_files (daily_files st))
      \<longrightarrow> (let F = list_files (daily_files st); n = length F
           in \<exists>a b c.
                retention body = \<lparr>d1 = Some a, d7 = Some b, d30 = Some c\<rparr> \<and>
                calcRetention L (daily_files st) F 1 0 = Inr (Some a) \<and>
                calcRetention L (daily_files st) F (min 7 (n - 1)) 0 = Inr (Some b) \<and>
                calcRetention L (daily_files st) F (min 30 (n - 1)) 0 = Inr (Some c) \<and>
                cohortDate a = replace_first ''.hll.json'' [] (F ! 1) \<and>
                cohortDate b = replace_first ''.hll.json'' [] (F ! min 7 (n - 1)) \<and>
                cohortDate c = replace_first ''.hll.json'' [] (F ! min 30 (n - 1)) \<and>
                returnDate a = replace_first ''.hll.json'' [] (F ! 0) \<and>
                returnDate b = replace_first ''.hll.json'' [] (F ! 0) \<and>
                returnDate c = replace_first ''.hll.json'' [] (F ! 0))) \<and>
   (length files < 2 \<longrightarrow> calculateRetention rate files = (None, None, None)) \<and>
   (length files < 8 \<longrightarrow> fst (snd (calculateRetention rate files)) = None) \<and>
   (length files < 31 \<longrightarrow> snd (snd (calculateRetention rate files)) = None) \<and>
   (2 \<le> length files \<longrightarrow>
      fst (calculateRetention rate files) = rate (files ! 1) (files ! 0)) \<and>
   (8 \<le> length files \<longrightarrow>
      fst (snd (calculateRetention rate files)) = rate (files ! 7) (files ! 0)) \<and>
   (31 \<le> length files \<longrightarrow>
      snd (snd (calculateRetention rate files)) = rate (files ! 30) (files ! 0))"
proof -
  define F where "F = list_files (daily_files st)"
  define n where "n = length F"
  have few: "stats L st = StatsOk body \<and> length (list_files (daily_files st)) < 2
      \<longrightarrow> retention body = \<lparr>d1 = None, d7 = None, d30 = None\<rparr>"
    using stats_retention [of L st body] retention_of_few [of "list_files (daily_files st)" L]
    by auto
  have many: "\<exists>a b c.
                retention body = \<lparr>d1 = Some a, d7 = Some b, d30 = Some c\<rparr> \<and>
                calcRetention L (daily_files st) F 1 0 = Inr (Some a) \<and>
                calcRetention L (daily_files st) F (min 7 (n - 1)) 0 = Inr (Some b) \<and>
                calcRetention L (daily_files st) F (min 30 (n - 1)) 0 = Inr (Some c) \<and>
                cohortDate a = replace_first ''.hll.json'' [] (F ! 1) \<and>
                cohortDate b = replace_first ''.hll.json'' [] (F ! min 7 (n - 1)) \<and>
                cohortDate c = replace_first ''.hll.json'' [] (F ! min 30 (n - 1)) \<and>
                returnDate a = replace_first ''.hll.json'' [] (F ! 0) \<and>
                returnDate b = replace_first ''.hll.json'' [] (F ! 0) \<and>
                returnDate c = replace_first ''.hll.json'' [] (F ! 0)"
    if ok: "stats L st = StatsOk body" and two: "2 \<le> length (list_files (daily_files st))"
  proof -
    have ret: "retention_of L (daily_files st) F = Inr (retention body)"
      using stats_retention [OF ok] by (simp add: F_def)
    have two': "2 \<le> length F" using two by (simp add: F_def)
    obtain a b c where abc: "retention body = \<lparr>d1 = Some a, d7 = Some b, d30 = Some c\<rparr>"
      using retention_of_many [OF two' ret] by blast
    have calc: "calcRetention L (daily_files st) F 1 0 = Inr (Some a)"
      "calcRetention L (daily_files st) F (min 7 (n - 1)) 0 = Inr (Some b)"
      "calcRetention L (daily_files st) F (min 30 (n - 1)) 0 = Inr (Some c)"
      using retention_of_entries [OF two' ret] by (simp_all add: abc n_def)
    show ?thesis
      using abc calc calcRetention_dates [OF calc(1)] calcRetention_dates [OF calc(2)]
        calcRetention_dates [OF calc(3)]
      by blast
  qed
  have draft: "(length files < 2 \<longrightarrow> calculateRetention rate files = (None, None, None)) \<and>
   (length files < 8 \<longrightarrow> fst (snd (calculateRetention rate files)) = None) \<and>
   (length files < 31 \<longrightarrow> snd (snd (calculateRetention rate files)) = None) \<and>
   (2 \<le> length files \<longrightarrow>
      fst (calculateRetention rate files) = rate (files ! 1) (files ! 0)) \<and>
   (8 \<le> length files \<longrightarrow>
      fst (snd (calculateRetention rate files)) = rate (files ! 7) (files ! 0)) \<and>
   (31 \<le> length files \<longrightarrow>
      snd (snd (calculateRetention rate files)) = rate (files ! 30) (files ! 0))"
    by (simp add: calculateRetention_def)
  show ?thesis
    unfolding Let_def
    using few many [unfolded n_def F_def] draft by blast
qed

text \<open>No daily file; three daily files, where \<open>d7\<close> and \<open>d30\<close> both take the oldest file
  as the cohort; and the second draft on lists of one, two and thirty-one files.\<close>

theorem retention_null_when_insufficient_witness:
  "(\<exists>body. stats test_libs test_state = StatsOk body \<and>
      length (list_files (daily_files test_state)) < 2 \<and>
      retention body = \<lparr>d1 = None, d7 = None, d30 = None\<rparr>) \<and>
   (\<exists>body a b c. stats test_libs test_dir_state = StatsOk body \<and>
      length (list_files (daily_files test_dir_state)) = 3 \<and>
      retention body = \<lparr>d1 = Some a, d7 = Some b, d30 = Some c\<rparr> \<and>
      calcRetention test_libs test_dir (list_files test_dir) 1 0 = Inr (Some a) \<and>
      calcRetention test_libs test_dir (list_files test_dir) 2 0 = Inr (Some b) \<and>
      calcRetention test_libs test_dir (list_files test_dir) 2 0 = Inr (Some c) \<and>
      cohortDate a = ''2024-01-02'' \<and> cohortDate b = ''2024-01-01'' \<and>
      cohortDate c = ''2024-01-01'' \<and> returnDate a = ''2024-01-03'' \<and>
      returnDate b = ''2024-01-03'' \<and> returnDate c = ''2024-01-03'') \<and>
   calculateRetention (\<lambda>c r. Some (c, r)) [''2024-01-01.json''] = (None, None, None) \<and>
   calculateRetention (\<lambda>c r. Some (c, r)) [''2024-01-02.json'', ''2024-01-01.json'']
     = (Some (''2024-01-01.json'', ''2024-01-02.json''), None, None) \<and>
   calculateRetention (\<lambda>c r. Some (c, r)) (map (\<lambda>i. replicate i CHR ''x'') [0..<31])
     = (Some (''x'', []), Some (''xxxxxxx'', []), Some (replicate 30 CHR ''x'', []))"
proof -
  let ?rate = "\<lambda>c r :: string. Some (c, r)"
  let ?one = "[''2024-01-01.json'']"
  let ?two = "[''2024-01-02.json'', ''2024-01-01.json'']"
  let ?long = "map (\<lambda>i. replicate i CHR ''x'') [0..<31]"
  have short: "length ?one < 2" "length ?two < 8" "length ?two < 31" "2 \<le> length ?two"
    by simp_all
  have s0: "stats test_libs test_state
      = StatsOk \<lparr>allTime = 0, wau = 0, mau = 0, recentDays = [],
                 retention = \<lparr>d1 = None, d7 = None, d30 = None\<rparr>\<rparr>"
    by (simp add: stats_def Let_def test_state_def list_files_def window_hll_def
        retention_of_def count_new)
  have n0: "length (list_files (daily_files test_state)) < 2"
    by (simp add: test_state_def list_files_def)
  obtain body where s2: "stats test_libs test_dir_state = StatsOk body"
    using stats_test_dir by blast
  have dir: "daily_files test_dir_state = test_dir"
    by (simp add: test_dir_state_def)
  have n2: "2 \<le> length (list_files (daily_files test_dir_state))"
    by (simp add: dir list_files_test_dir)
  have a: "\<exists>body. stats test_libs test_state = StatsOk body \<and>
      length (list_files (daily_files test_state)) < 2 \<and>
      retention body = \<lparr>d1 = None, d7 = None, d30 = None\<rparr>"
    using retention_null_when_insufficient [where L = test_libs and st = test_state] s0 n0
    by blast
  have b: "\<exists>body a b c. stats test_libs test_dir_state = StatsOk body \<and>
      length (list_files (daily_files test_dir_state)) = 3 \<and>
      retention body = \<lparr>d1 = Some a, d7 = Some b, d30 = Some c\<rparr> \<and>
      calcRetention test_libs test_dir (list_files test_dir) 1 0 = Inr (Some a) \<and>
      calcRetention test_libs test_dir (list_files test_dir) 2 0 = Inr (Some b) \<and>
      calcRetention test_libs test_dir (list_files test_dir) 2 0 = Inr (Some c) \<and>
      cohortDate a = ''2024-01-02'' \<and> cohortDate b = ''2024-01-01'' \<and>
      cohortDate c = ''2024-01-01'' \<and> returnDate a = ''2024-01-03'' \<and>
      returnDate b = ''2024-01-03'' \<and> returnDate c = ''2024-01-03''"
    using retention_null_when_insufficient [where L = test_libs and st = test_dir_state
        and body = body and files = ?one and rate = ?rate] s2 n2
    by (simp add: Let_def dir list_files_test_dir dateKeys_test_dir numeral_2_eq_2)
  have c1: "calculateRetention ?rate ?one = (None, None, None)"
    using retention_null_when_insufficient [where files = ?one and rate = ?rate] short(1)
    by blast
  have c2: "calculateRetention ?rate ?two
      = (Some (''2024-01-01.json'', ''2024-01-02.json''), None, None)"
    using retention_null_when_insufficient [where files = ?two and rate = ?rate] short(2-4)
    by (cases "calculateRetention ?rate ?two") auto
  have len: "length ?long = 31"
    by simp
  have nth: "?long ! 0 = []" "?long ! 1 = ''x''" "?long ! 7 = ''xxxxxxx''"
    "?long ! 30 = replicate 30 CHR ''x''"
    by (simp_all add: numeral_eq_Suc)
  have c3: "calculateRetention ?rate ?long
      = (Some (''x'', []), Some (''xxxxxxx'', []), Some (replicate 30 CHR ''x'', []))"
    using retention_null_when_insufficient [where files = ?long and rate = ?rate
        and L = test_libs and st = test_state]
    by (cases "calculateRetention ?rate ?long")
       (auto simp add: len nth simp del: map_upt_Suc upt.simps)
  show ?thesis using a b c1 c2 c3 by blast
qed

text \<open>
  With three daily files there is no file seven or thirty days back, and yet \<open>d7\<close> and
  \<open>d30\<close> are not null: both are computed from the oldest file, two days back.
\<close>

theorem retention_clamped_counterexample:
  "list_files (daily_files test_dir_state)
     = [''2024-01-03.hll.json'', ''2024-01-02.hll.json'', ''2024-01-01.hll.json''] \<and>
   stats test_libs test_dir_state = StatsOk
     \<lparr>allTime = 0, wau = 1, mau = 1,
      recentDays = [\<lparr>date = ''2024-01-03'', dau = 1, newUsers = 0\<rparr>,
                    \<lparr>date = ''2024-01-02'', dau = 1, newUsers = 0\<rparr>,
                    \<lparr>date = ''2024-01-01'', dau = 1, newUsers = 0\<rparr>],
      retention =
        \<lparr>d1 = Some \<lparr>cohortDate = ''2024-01-02'', returnDate = ''2024-01-03'', cohortSize = 1,
                     returnedUsers = 2, retentionRate = 200\<rparr>,
         d7 = Some \<lparr>cohortDate = ''2024-01-01'', returnDate = ''2024-01-03'', cohortSize = 1,
                     returnedUsers = 2, retentionRate = 200\<rparr>,
         d30 = Some \<lparr>cohortDate = ''2024-01-01'', returnDate = ''2024-01-03'', cohortSize = 1,
                      returnedUsers = 2, retentionRate = 200\<rparr>\<rparr>\<rparr>"
  using stats_test_dir list_files_test_dir by (simp add: test_dir_state_def)

section \<open>The retention estimate\<close>

text \<open>
  C6. The claim: the retention estimate computes the overlap \<open>|A| + |B| - |A \<union> B|\<close>
  from a third estimator formed by merging both, clamped at zero, and the rate
  \<open>overlap / |A| * 100\<close>. The code does not form the third estimator:
  \<^verbatim>\<open>calcRetention\<close> calls \<^verbatim>\<open>unionHLL.merge(...)\<close> twice and discards what the calls
  return. Whenever both daily files load and the merge leaves its receiver, the new
  estimator, unchanged, as the merge of the package does, \<^verbatim>\<open>calcRetention\<close> returns the
  record computed with the estimate \<open>E\<close> of a new estimator in the place of \<open>|A \<union> B|\<close>:
  the overlap is \<open>max(0, |A| + |B| - E)\<close>.
\<close>

theorem calcRetention_union_never_merged:
  assumes "cohortIdx < length files" and "returnIdx < length files"
    and "getDailyData dir (replace_first ''.hll.json'' [] (files ! cohortIdx)) = Inr cohortData"
    and "getDailyData dir (replace_first ''.hll.json'' [] (files ! returnIdx)) = Inr returnData"
    and "hll_merge L (new_HyperLogLog HLL_REGISTERS) (hll cohortData)
           = Inr (new_HyperLogLog HLL_REGISTERS)"
    and "hll_merge L (new_HyperLogLog HLL_REGISTERS) (hll returnData)
           = Inr (new_HyperLogLog HLL_REGISTERS)"
  shows "calcRetention L dir files cohortIdx returnIdx =
     (let A = hll_count L (hll cohortData);
          B = hll_count L (hll returnData);
          E = hll_count L (new_HyperLogLog HLL_REGISTERS);
          retained = max 0 (A + B - E);
          rate = (if A > 0 then retained / A * 100 else 0)
      in Inr (Some
           \<lparr>cohortDate = replace_first ''.hll.json'' [] (files ! cohortIdx),
            returnDate = replace_first ''.hll.json'' [] (files ! returnIdx),
            cohortSize = Math_round A,
            returnedUsers = Math_round retained,
            retentionRate = real_of_int (Math_round (rate * 100)) / 100\<rparr>))"
proof -
  have range: "\<not> length files \<le> max cohortIdx returnIdx"
    using assms(1,2) by simp
  show ?thesis
    using range assms(3-6) by (simp add: calcRetention_def Let_def)
qed

text \<open>
  The days 2024-01-02 and 2024-01-03 of the test directory hold the same estimator,
  with the estimate 1. Merged as the specification words it, the third estimator is
  that estimator again, and the claim gives the overlap 1 and the rate 100. The union
  estimator of the code stays new, with the estimate 0, and \<^verbatim>\<open>calcRetention\<close> returns
  2 returned users of a cohort of 1 and the rate 200.
\<close>

theorem calcRetention_union_never_merged_witness:
  "list_files test_dir
     = [''2024-01-03.hll.json'', ''2024-01-02.hll.json'', ''2024-01-01.hll.json''] \<and>
   getDailyData test_dir ''2024-01-02''
     = Inr \<lparr>hll = test_hll, newUsersHll = new_HyperLogLog HLL_REGISTERS\<rparr> \<and>
   getDailyData test_dir ''2024-01-03''
     = Inr \<lparr>hll = test_hll, newUsersHll = new_HyperLogLog HLL_REGISTERS\<rparr> \<and>
   hll_count test_libs test_hll = 1 \<and>
   merge (new_HyperLogLog HLL_REGISTERS) test_hll = Inr test_hll \<and>
   merge test_hll test_hll = Inr test_hll \<and>
   spec_retention (hll_count test_libs) test_hll test_hll = Inr (1, 100) \<and>
   hll_merge test_libs (new_HyperLogLog HLL_REGISTERS) test_hll
     = Inr (new_HyperLogLog HLL_REGISTERS) \<and>
   hll_count test_libs (new_HyperLogLog HLL_REGISTERS) = 0 \<and>
   calcRetention test_libs test_dir (list_files test_dir) 1 0
     = Inr (Some \<lparr>cohortDate = ''2024-01-02'', returnDate = ''2024-01-03'', cohortSize = 1,
                   returnedUsers = 2, retentionRate = 200\<rparr>)"
proof -
  let ?files = "[''2024-01-03.hll.json'', ''2024-01-02.hll.json'', ''2024-01-01.hll.json'']"
  let ?day = "\<lparr>hll = test_hll, newUsersHll = new_HyperLogLog HLL_REGISTERS\<rparr>"
  have idx: "(1 :: nat) < length ?files" "(0 :: nat) < length ?files"
    by simp_all
  have cohort: "getDailyData test_dir (replace_first ''.hll.json'' [] (?files ! 1)) = Inr ?day"
    and return: "getDailyData test_dir (replace_first ''.hll.json'' [] (?files ! 0)) = Inr ?day"
    by (simp_all add: dateKeys_test_dir getDailyData_test_dir)
  have unchanged: "hll_merge test_libs (new_HyperLogLog HLL_REGISTERS) (hll ?day)
      = Inr (new_HyperLogLog HLL_REGISTERS)"
    by (simp add: receiver_new_test_hll)
  have calc: "calcRetention test_libs test_dir ?files 1 0
     = Inr (Some \<lparr>cohortDate = ''2024-01-02'', returnDate = ''2024-01-03'', cohortSize = 1,
                   returnedUsers = 2, retentionRate = 200\<rparr>)"
    using calcRetention_union_never_merged [OF idx cohort return unchanged unchanged]
    by (simp add: Let_def dateKeys_test_dir count_test_hll count_new Math_round_def)
  show ?thesis
    using calc
    by (simp add: list_files_test_dir getDailyData_test_dir count_test_hll merge_new_test_hll
        merge_test_hll_idem spec_retention_test_hll receiver_new_test_hll count_new)
qed

end
